theory Spec2Isabelle
  imports Main "HOL-Library.Sublist"
begin

section \<open>The FZP checker runner (scripts/checks/fzp_checker_runner.py)\<close>

subsection \<open>Parsed documents\<close>

text \<open>
  An lxml element as the runner reads it: the tag, the attributes and the element
  children, in document order. Text content is never read by the runner.
\<close>

datatype element =
  Element (tag: string) (attrib: "(string \<times> string) list") (children: "element list")

text \<open>\<^verbatim>\<open>e.get(key)\<close>: the attribute's value, or None.\<close>

definition element_get :: "element \<Rightarrow> string \<Rightarrow> string option" where
  "element_get e key = map_of (attrib e) key"

text \<open>\<^verbatim>\<open>root.clear()\<close> drops the attributes and the children and keeps the tag.\<close>

definition clear :: "element \<Rightarrow> element" where
  "clear e = Element (tag e) [] []"

fun descendant_or_self :: "element \<Rightarrow> element list" where
  "descendant_or_self (Element t a cs) =
     Element t a cs # concat (map descendant_or_self cs)"

text \<open>\<^verbatim>\<open>doc.xpath("//name")\<close>: every element of the document with that tag, in document order.\<close>

definition xpath_all :: "string \<Rightarrow> element \<Rightarrow> element list" where
  "xpath_all name root = filter (\<lambda>e. tag e = name) (descendant_or_self root)"

text \<open>\<^verbatim>\<open>e.xpath("*")\<close>: the element children.\<close>

definition xpath_star :: "element \<Rightarrow> element list" where
  "xpath_star e = children e"

text \<open>\<^verbatim>\<open>e.xpath("name")\<close>: the element children with that tag.\<close>

definition xpath_child :: "string \<Rightarrow> element \<Rightarrow> element list" where
  "xpath_child name e = filter (\<lambda>c. tag c = name) (children e)"

subsection \<open>Exceptions and the outside world\<close>

text \<open>The exceptions that leave the runner. XMLSyntaxError is the one it catches.\<close>

datatype exn =
  ValueError string | IndexError | UnboundLocalError | OSError string
  | UnicodeDecodeError string

text \<open>
  What \<^verbatim>\<open>etree.parse(path)\<close> does: it returns the document, raises XMLSyntaxError on
  malformed input, or raises OSError when the file cannot be read.
\<close>

datatype parsed = Parsed element | XMLSyntaxError string | ReadError string

datatype fzp_checker =
  FZPMissingTagsChecker | FZPConnectorTerminalChecker | FZPConnectorVisibilityChecker
  | FZPPCBConnectorStrokeChecker

datatype svg_checker = SVGFontSizeChecker | SVGViewBoxChecker | SVGIdsChecker

definition AVAILABLE_CHECKERS :: "fzp_checker list" where
  "AVAILABLE_CHECKERS =
     [FZPMissingTagsChecker, FZPConnectorTerminalChecker, FZPConnectorVisibilityChecker,
      FZPPCBConnectorStrokeChecker]"

definition SVG_AVAILABLE_CHECKERS :: "svg_checker list" where
  "SVG_AVAILABLE_CHECKERS = [SVGFontSizeChecker, SVGViewBoxChecker, SVGIdsChecker]"

text \<open>
  The modules fzp_checkers, svg_checkers and fzp_utils, and the file system, are outside
  the runner's source. What the runner calls of them is a parameter: the parser, the
  file test, \<^verbatim>\<open>FZPUtils.get_svg_path\<close> (None for a template SVG), and for every checker
  class its \<^verbatim>\<open>get_name()\<close> and its \<^verbatim>\<open>check()\<close>, which returns the error count and prints
  the lines given with it. An FZP checker is built from the document and, for the three
  path-aware classes, the path.
\<close>

record env =
  etree_parse :: "string \<Rightarrow> parsed"
  isfile :: "string \<Rightarrow> bool"
  get_svg_path :: "string \<Rightarrow> string \<Rightarrow> string \<Rightarrow> string option"
  fzp_get_name :: "fzp_checker \<Rightarrow> string"
  fzp_check :: "fzp_checker \<Rightarrow> element \<Rightarrow> string option \<Rightarrow> int \<times> string list"
  svg_get_name :: "svg_checker \<Rightarrow> string"
  svg_check :: "svg_checker \<Rightarrow> element \<Rightarrow> string list \<Rightarrow> int \<times> string list"

text \<open>
  What a run does to the outside, in order: a line the runner prints, a document it
  parses, a rule it runs (with the rule's name and the lines the rule printed), and the
  asset resolution and file test of a view.
\<close>

datatype event =
    Print string
  | Parse string
  | FzpCheck string "string list"
  | GetSvgPath string string string
  | IsFile string
  | SvgCheck string string "string list"

text \<open>The runner object (path, verbose, total_errors) and the events so far.\<close>

record runner =
  path :: string
  verbose :: bool
  total_errors :: int
  trace :: "event list"

text \<open>A call returns, or raises with the state it leaves behind.\<close>

datatype 'a outcome = Returned 'a | Raised exn 'a

fun state_of :: "'a outcome \<Rightarrow> 'a" where
  "state_of (Returned s) = s"
| "state_of (Raised e s) = s"

definition emit :: "event \<Rightarrow> runner \<Rightarrow> runner" where
  "emit ev r = r\<lparr>trace := trace r @ [ev]\<rparr>"

definition print :: "string \<Rightarrow> runner \<Rightarrow> runner" where
  "print s r = emit (Print s) r"

definition add_errors :: "int \<Rightarrow> runner \<Rightarrow> runner" where
  "add_errors n r = r\<lparr>total_errors := total_errors r + n\<rparr>"

text \<open>The text on standard output: the runner's lines and the rules' lines, in order.\<close>

fun event_lines :: "event \<Rightarrow> string list" where
  "event_lines (Print s) = [s]"
| "event_lines (FzpCheck n ls) = ls"
| "event_lines (SvgCheck n p ls) = ls"
| "event_lines _ = []"

definition output_lines :: "event list \<Rightarrow> string list" where
  "output_lines evs = concat (map event_lines evs)"

text \<open>The events of one call: what the trace gained from \<open>r\<close> to \<open>r'\<close>.\<close>

definition emitted :: "runner \<Rightarrow> runner \<Rightarrow> event list" where
  "emitted r r' = drop (length (trace r)) (trace r')"

subsection \<open>Formatting\<close>

function str_nat :: "nat \<Rightarrow> string" where
  "str_nat n =
     (if n < 10 then [''0123456789'' ! n]
      else str_nat (n div 10) @ [''0123456789'' ! (n mod 10)])"
  by pat_completeness auto
termination
  by (relation "measure (\<lambda>n. n)") auto

text \<open>\<^verbatim>\<open>str(n)\<close> of a Python int.\<close>

definition str_int :: "int \<Rightarrow> string" where
  "str_int i = (if i < 0 then CHR ''-'' # str_nat (nat (- i)) else str_nat (nat i))"

text \<open>\<^verbatim>\<open>'{s}'\<close> inside an f-string: the value between single quotes.\<close>

definition sq :: "string \<Rightarrow> string" where
  "sq s = CHR 0x27 # s @ [CHR 0x27]"

subsection \<open>Looking a checker up by name\<close>

text \<open>
  \<^verbatim>\<open>_get_checker\<close>: the first registered class with that name, built with the path for
  the three path-aware classes; ValueError when no class has the name.
\<close>

definition get_checker ::
  "env \<Rightarrow> runner \<Rightarrow> string \<Rightarrow> exn + (fzp_checker \<times> string option)" where
  "get_checker env r check_type =
     (case find (\<lambda>checker. fzp_get_name env checker = check_type) AVAILABLE_CHECKERS of
        Some checker \<Rightarrow>
          if checker \<in> set [FZPConnectorTerminalChecker, FZPConnectorVisibilityChecker,
                             FZPPCBConnectorStrokeChecker]
          then Inr (checker, Some (path r))
          else Inr (checker, None)
      | None \<Rightarrow> Inl (ValueError (''Invalid check type: '' @ check_type)))"

text \<open>\<^verbatim>\<open>_get_svg_checker\<close>.\<close>

definition get_svg_checker :: "env \<Rightarrow> string \<Rightarrow> exn + svg_checker" where
  "get_svg_checker env check_type =
     (case find (\<lambda>checker. svg_get_name env checker = check_type) SVG_AVAILABLE_CHECKERS of
        Some checker \<Rightarrow> Inr checker
      | None \<Rightarrow> Inl (ValueError (''Invalid SVG check type: '' @ check_type)))"

subsection \<open>The SVG side\<close>

text \<open>The loop over \<^verbatim>\<open>layers.xpath("layer")\<close> that collects the non-empty layerId values.\<close>

fun collect_layer_ids :: "element list \<Rightarrow> string list" where
  "collect_layer_ids [] = []"
| "collect_layer_ids (layer_element # rest) =
     (case element_get layer_element ''layerId'' of
        Some layer_id \<Rightarrow>
          if layer_id \<noteq> [] then layer_id # collect_layer_ids rest
          else collect_layer_ids rest
      | None \<Rightarrow> collect_layer_ids rest)"

text \<open>The loop over \<^verbatim>\<open>svg_check_types\<close> inside the try block.\<close>

fun run_svg_checks ::
  "env \<Rightarrow> element \<Rightarrow> string list \<Rightarrow> string \<Rightarrow> string \<Rightarrow> string list \<Rightarrow> runner
     \<Rightarrow> runner outcome" where
  "run_svg_checks env svg_doc layer_ids svg_path view_tag [] r = Returned r"
| "run_svg_checks env svg_doc layer_ids svg_path view_tag (check_type # rest) r =
     (case get_svg_checker env check_type of
        Inl e \<Rightarrow> Raised e r
      | Inr checker \<Rightarrow>
          (let r1 = (if verbose r
                     then print (''Running SVG check: '' @ svg_get_name env checker
                                 @ '' on '' @ svg_path @ '' for '' @ view_tag) r
                     else r);
               res = svg_check env checker svg_doc layer_ids;
               r2 = emit (SvgCheck (svg_get_name env checker) svg_path (snd res)) r1
           in run_svg_checks env svg_doc layer_ids svg_path view_tag rest
                (add_errors (fst res) r2)))"

text \<open>
  One pass of the loop over the views. The frame is the runner and the local variable
  \<^verbatim>\<open>svg_doc\<close>, which is unbound (None) until a parse of this call has succeeded, and
  which the finally clause reads on every way out of the try block.
\<close>

definition svg_view ::
  "env \<Rightarrow> string list \<Rightarrow> element \<Rightarrow> runner \<times> element option
     \<Rightarrow> (runner \<times> element option) outcome" where
  "svg_view env svg_check_types view fr =
     (let r = fst fr; svg_doc = snd fr in
      if tag view = ''defaultUnits'' then Returned (r, svg_doc)
      else
        case xpath_child ''layers'' view of
          [] \<Rightarrow>
            Returned
              (print (''Warning: No '' @ sq ''layers'' @ '' element found in view ''
                      @ sq (tag view) @ '' of file '' @ sq (path r)) r,
               svg_doc)
        | layers # _ \<Rightarrow>
            (let image = element_get layers ''image'';
                 layer_ids = collect_layer_ids (xpath_child ''layer'' layers)
             in
               case image of
                 None \<Rightarrow> Returned (r, svg_doc)
               | Some img \<Rightarrow>
                   if img = [] then Returned (r, svg_doc)
                   else
                     (let r1 = emit (GetSvgPath (path r) img (tag view)) r in
                      case get_svg_path env (path r) img (tag view) of
                        None \<Rightarrow> Returned (r1, svg_doc)
                      | Some svg_path \<Rightarrow>
                          (let r2 = emit (IsFile svg_path) r1 in
                           if isfile env svg_path then
                             (let r3 = emit (Parse svg_path) r2 in
                              case etree_parse env svg_path of
                                Parsed d \<Rightarrow>
                                  (case run_svg_checks env d layer_ids svg_path (tag view)
                                          svg_check_types r3 of
                                     Returned r4 \<Rightarrow> Returned (r4, Some (clear d))
                                   | Raised e r4 \<Rightarrow> Raised e (r4, Some (clear d)))
                              | XMLSyntaxError msg \<Rightarrow>
                                  (let r4 = add_errors 1
                                              (print (''Invalid XML in SVG: '' @ msg) r3)
                                   in case svg_doc of
                                        None \<Rightarrow> Raised UnboundLocalError (r4, None)
                                      | Some d0 \<Rightarrow> Returned (r4, Some (clear d0)))
                              | ReadError msg \<Rightarrow>
                                  (case svg_doc of
                                     None \<Rightarrow> Raised UnboundLocalError (r3, None)
                                   | Some d0 \<Rightarrow> Raised (OSError msg) (r3, Some (clear d0))))
                           else
                             Returned
                               (add_errors 1
                                  (print (''Warning: SVG '' @ sq svg_path @ '' for view ''
                                          @ sq (tag view) @ '' of file '' @ sq (path r)
                                          @ '' not found.'') r2),
                                svg_doc)))))"

fun run_views ::
  "env \<Rightarrow> string list \<Rightarrow> element list \<Rightarrow> runner \<times> element option
     \<Rightarrow> (runner \<times> element option) outcome" where
  "run_views env svg_check_types [] fr = Returned fr"
| "run_views env svg_check_types (view # rest) fr =
     (case svg_view env svg_check_types view fr of
        Raised e fr' \<Rightarrow> Raised e fr'
      | Returned fr' \<Rightarrow> run_views env svg_check_types rest fr')"

text \<open>\<^verbatim>\<open>_run_svg_checkers\<close>: \<^verbatim>\<open>fzp_doc.xpath("//views")[0]\<close> raises IndexError on no match.\<close>

definition run_svg_checkers :: "env \<Rightarrow> element \<Rightarrow> string list \<Rightarrow> runner \<Rightarrow> runner outcome" where
  "run_svg_checkers env fzp_doc svg_check_types r =
     (case xpath_all ''views'' fzp_doc of
        [] \<Rightarrow> Raised IndexError r
      | views # _ \<Rightarrow>
          (case run_views env svg_check_types (xpath_star views) (r, None) of
             Returned fr \<Rightarrow> Returned (fst fr)
           | Raised e fr \<Rightarrow> Raised e (fst fr)))"

subsection \<open>check\<close>

text \<open>The loop over \<^verbatim>\<open>check_types\<close>.\<close>

fun run_fzp_checks :: "env \<Rightarrow> element \<Rightarrow> string list \<Rightarrow> runner \<Rightarrow> runner outcome" where
  "run_fzp_checks env fzp_doc [] r = Returned r"
| "run_fzp_checks env fzp_doc (check_type # rest) r =
     (case get_checker env r check_type of
        Inl e \<Rightarrow> Raised e r
      | Inr inst \<Rightarrow>
          (let r1 = (if verbose r
                     then print (''Running check: '' @ fzp_get_name env (fst inst)) r
                     else r);
               res = fzp_check env (fst inst) fzp_doc (snd inst);
               r2 = emit (FzpCheck (fzp_get_name env (fst inst)) (snd res)) r1
           in run_fzp_checks env fzp_doc rest (add_errors (fst res) r2)))"

text \<open>
  \<^verbatim>\<open>check\<close>. Only XMLSyntaxError is caught around the parse; any other failure of
  the parser leaves the call. The closing \<^verbatim>\<open>fzp_doc.getroot().clear()\<close> frees a document
  that nothing reads afterwards, so it changes nothing here.
\<close>

definition check :: "env \<Rightarrow> string list \<Rightarrow> string list \<Rightarrow> runner \<Rightarrow> runner outcome" where
  "check env check_types svg_check_types r0 =
     (let r = emit (Parse (path r0)) (r0\<lparr>total_errors := 0\<rparr>) in
      case etree_parse env (path r) of
        XMLSyntaxError msg \<Rightarrow> Returned (add_errors 1 (print (''Invalid XML: '' @ msg) r))
      | ReadError msg \<Rightarrow> Raised (OSError msg) r
      | Parsed fzp_doc \<Rightarrow>
          (let r1 = (if verbose r then print (''Scanning file: '' @ path r) r else r) in
           case run_fzp_checks env fzp_doc check_types r1 of
             Raised e r2 \<Rightarrow> Raised e r2
           | Returned r2 \<Rightarrow>
               (case (if svg_check_types \<noteq> []
                      then run_svg_checkers env fzp_doc svg_check_types r2
                      else Returned r2) of
                  Raised e r3 \<Rightarrow> Raised e r3
                | Returned r3 \<Rightarrow>
                    Returned
                      (if verbose r3 \<or> total_errors r3 > 0
                       then print (''Total errors in '' @ path r3 @ '': ''
                                   @ str_int (total_errors r3)) r3
                       else r3))))"

subsection \<open>Batch mode\<close>

text \<open>\<^verbatim>\<open>s.split(sep)\<close> for a one-character separator: the pieces between the separators.\<close>

fun str_split :: "string \<Rightarrow> char \<Rightarrow> string list" where
  "str_split [] sep = [[]]"
| "str_split (c # cs) sep =
     (if c = sep then [] # str_split cs sep
      else case str_split cs sep of
             seg # segs \<Rightarrow> (c # seg) # segs
           | [] \<Rightarrow> [[c]])"

text \<open>\<^verbatim>\<open>os.path.basename\<close> (POSIX): what follows the last slash.\<close>

definition basename :: "string \<Rightarrow> string" where
  "basename p = rev (takeWhile (\<lambda>c. c \<noteq> CHR ''/'') (rev p))"

text \<open>\<^verbatim>\<open>os.path.join(a, b)\<close> (POSIX).\<close>

definition os_path_join :: "string \<Rightarrow> string \<Rightarrow> string" where
  "os_path_join a b =
     (if b \<noteq> [] \<and> hd b = CHR ''/'' then b
      else if a = [] \<or> last a = CHR ''/'' then a @ b
      else a @ ''/'' @ b)"

text \<open>\<^verbatim>\<open>s.endswith(suf)\<close> and \<^verbatim>\<open>sub in s\<close> on strings.\<close>

definition endswith :: "string \<Rightarrow> string \<Rightarrow> bool" where
  "endswith s suf = (length suf \<le> length s \<and> drop (length s - length suf) s = suf)"

fun str_in :: "string \<Rightarrow> string \<Rightarrow> bool" where
  "str_in sub [] = (sub = [])"
| "str_in sub (c # cs) = (take (length sub) (c # cs) = sub \<or> str_in sub cs)"

text \<open>
  A directory as \<^verbatim>\<open>os.walk\<close> sees it: the names of its files and its subdirectories, in
  listing order. The walk is top-down: a directory's triple comes before those of its
  subdirectories, each under the joined path.
\<close>

datatype fs_dir = Dir (files: "string list") (subdirs: "(string \<times> fs_dir) list")

fun os_walk :: "string \<Rightarrow> fs_dir \<Rightarrow> (string \<times> string list \<times> string list) list" where
  "os_walk start (Dir fs ds) =
     (start, map fst ds, fs)
       # concat (map (\<lambda>nd. os_walk (os_path_join start (fst nd)) (snd nd)) ds)"

text \<open>
  The inner loop over the files of one directory. \<open>rd\<close> is
  \<^verbatim>\<open>open(fzp_path, 'r').read()\<close>: the content, or the exception of a file that cannot be
  opened (OSError) or decoded as text (UnicodeDecodeError). Nothing catches it, so it
  ends the whole search.
\<close>

fun scan_files ::
  "(string \<Rightarrow> exn + string) \<Rightarrow> string \<Rightarrow> string \<Rightarrow> string list \<Rightarrow> string list
     \<Rightarrow> exn + string list" where
  "scan_files rd svg_filename root [] fzp_files = Inr fzp_files"
| "scan_files rd svg_filename root (file # rest) fzp_files =
     (if endswith file ''.fzp'' then
        (let fzp_path = os_path_join root file in
         case rd fzp_path of
           Inl e \<Rightarrow> Inl e
         | Inr fzp_content \<Rightarrow>
             if str_in svg_filename fzp_content
             then scan_files rd svg_filename root rest (fzp_files @ [fzp_path])
             else scan_files rd svg_filename root rest fzp_files)
      else scan_files rd svg_filename root rest fzp_files)"

text \<open>The outer loop over the walk, with its \<^verbatim>\<open>continue\<close> on an obsolete directory.\<close>

fun scan_walk ::
  "(string \<Rightarrow> exn + string) \<Rightarrow> string \<Rightarrow> bool
     \<Rightarrow> (string \<times> string list \<times> string list) list \<Rightarrow> string list \<Rightarrow> exn + string list" where
  "scan_walk rd svg_filename is_obsolete [] fzp_files = Inr fzp_files"
| "scan_walk rd svg_filename is_obsolete ((root, dirs, fs) # rest) fzp_files =
     (if \<not> is_obsolete \<and> ''obsolete'' \<in> set (str_split root CHR ''/'')
      then scan_walk rd svg_filename is_obsolete rest fzp_files
      else case scan_files rd svg_filename root fs fzp_files of
             Inl e \<Rightarrow> Inl e
           | Inr found \<Rightarrow> scan_walk rd svg_filename is_obsolete rest found)"

text \<open>\<^verbatim>\<open>_search_fzp_files_with_svg\<close>; \<open>tree\<close> is the directory found at \<open>fzp_dir\<close>.\<close>

definition search_fzp_files_with_svg ::
  "(string \<Rightarrow> exn + string) \<Rightarrow> fs_dir \<Rightarrow> string \<Rightarrow> string \<Rightarrow> exn + string list" where
  "search_fzp_files_with_svg rd tree svg_file fzp_dir =
     (let svg_filename = basename svg_file;
          is_obsolete = (''obsolete'' \<in> set (str_split svg_file CHR ''/''))
      in scan_walk rd svg_filename is_obsolete (os_walk fzp_dir tree) [])"

text \<open>The loop of \<^verbatim>\<open>search_and_check_fzp_files\<close>, with its local sum \<^verbatim>\<open>errors\<close>.\<close>

fun check_files ::
  "env \<Rightarrow> string list \<Rightarrow> string list \<Rightarrow> string list \<Rightarrow> int \<times> runner
     \<Rightarrow> (int \<times> runner) outcome" where
  "check_files env check_types svg_check_types [] s = Returned s"
| "check_files env check_types svg_check_types (fzp_file # rest) s =
     (case check env check_types svg_check_types ((snd s)\<lparr>path := fzp_file\<rparr>) of
        Raised e r \<Rightarrow> Raised e (fst s, r)
      | Returned r \<Rightarrow>
          check_files env check_types svg_check_types rest (fst s + total_errors r, r))"

text \<open>
  \<^verbatim>\<open>search_and_check_fzp_files\<close>: an exception of the search leaves the call before any
  file is checked.
\<close>

definition search_and_check_fzp_files ::
  "env \<Rightarrow> (string \<Rightarrow> exn + string) \<Rightarrow> fs_dir \<Rightarrow> string \<Rightarrow> string \<Rightarrow> string list
     \<Rightarrow> string list \<Rightarrow> runner \<Rightarrow> (int \<times> runner) outcome" where
  "search_and_check_fzp_files env rd tree svg_file fzp_dir check_types svg_check_types r =
     (case search_fzp_files_with_svg rd tree svg_file fzp_dir of
        Inl e \<Rightarrow> Raised e (0, r)
      | Inr fzp_files \<Rightarrow> check_files env check_types svg_check_types fzp_files (0, r))"

subsection \<open>What batch discovery is to return\<close>

text \<open>
  \<open>file_under tree start dp name\<close>: the directory \<open>tree\<close>, found at the path \<open>start\<close>, holds a
  file \<open>name\<close> in its directory of path \<open>dp\<close> (itself or one below it).
\<close>

inductive file_under :: "fs_dir \<Rightarrow> string \<Rightarrow> string \<Rightarrow> string \<Rightarrow> bool" where
  here: "name \<in> set (files tree) \<Longrightarrow> file_under tree start start name"
| below: "(d, sub) \<in> set (subdirs tree) \<Longrightarrow> file_under sub (os_path_join start d) dp name
            \<Longrightarrow> file_under tree start dp name"

definition has_segment :: "string \<Rightarrow> string \<Rightarrow> bool" where
  "has_segment seg p = (seg \<in> set (str_split p CHR ''/''))"

text \<open>
  The files the search has to open: the files under the root whose name ends in ".fzp",
  those in a directory whose path has an obsolete segment left out unless the SVG's own
  path has one.
\<close>

definition opened_fzp_files :: "fs_dir \<Rightarrow> string \<Rightarrow> string \<Rightarrow> string set" where
  "opened_fzp_files tree svg_file fzp_dir =
     {os_path_join dp name | dp name.
        file_under tree fzp_dir dp name \<and> suffix ''.fzp'' name
        \<and> (has_segment ''obsolete'' svg_file \<or> \<not> has_segment ''obsolete'' dp)}"

text \<open>Those of them whose content contains the SVG's base filename.\<close>

definition referencing_fzp_files ::
  "(string \<Rightarrow> exn + string) \<Rightarrow> fs_dir \<Rightarrow> string \<Rightarrow> string \<Rightarrow> string set" where
  "referencing_fzp_files rd tree svg_file fzp_dir =
     {p \<in> opened_fzp_files tree svg_file fzp_dir.
        \<exists>content. rd p = Inr content \<and> sublist (basename svg_file) content}"

text \<open>
  The two loops of the search, flattened: the paths that the walk makes the search open,
  in order, and the scan of a list of paths that stops at the first one that cannot be
  read. They are what the loops are proved to compute.
\<close>

fun walk_opened :: "bool \<Rightarrow> (string \<times> string list \<times> string list) list \<Rightarrow> string list" where
  "walk_opened is_obsolete [] = []"
| "walk_opened is_obsolete ((root, dirs, fs) # rest) =
     (if \<not> is_obsolete \<and> has_segment ''obsolete'' root then []
      else map (os_path_join root) (filter (\<lambda>f. endswith f ''.fzp'') fs))
     @ walk_opened is_obsolete rest"

fun scan_paths ::
  "(string \<Rightarrow> exn + string) \<Rightarrow> string \<Rightarrow> string list \<Rightarrow> string list \<Rightarrow> exn + string list" where
  "scan_paths rd svg_filename [] found = Inr found"
| "scan_paths rd svg_filename (p # ps) found =
     (case rd p of
        Inl e \<Rightarrow> Inl e
      | Inr content \<Rightarrow>
          scan_paths rd svg_filename ps
            (if str_in svg_filename content then found @ [p] else found))"

subsection \<open>Registered names and the count of a selected rule\<close>

definition fzp_names :: "env \<Rightarrow> string set" where
  "fzp_names env = set (map (fzp_get_name env) AVAILABLE_CHECKERS)"

definition svg_names :: "env \<Rightarrow> string set" where
  "svg_names env = set (map (svg_get_name env) SVG_AVAILABLE_CHECKERS)"

text \<open>What the FZP rule selected by a name returns on a document (0 when there is none).\<close>

definition fzp_errors :: "env \<Rightarrow> runner \<Rightarrow> element \<Rightarrow> string \<Rightarrow> int" where
  "fzp_errors env r fzp_doc check_type =
     (case get_checker env r check_type of
        Inr inst \<Rightarrow> fst (fzp_check env (fst inst) fzp_doc (snd inst))
      | Inl e \<Rightarrow> 0)"

text \<open>The same for the SVG rule selected by a name, on an SVG document and layer ids.\<close>

definition svg_errors :: "env \<Rightarrow> element \<Rightarrow> string list \<Rightarrow> string \<Rightarrow> int" where
  "svg_errors env svg_doc layer_ids check_type =
     (case get_svg_checker env check_type of
        Inr checker \<Rightarrow> fst (svg_check env checker svg_doc layer_ids)
      | Inl e \<Rightarrow> 0)"

subsection \<open>The asset of a view\<close>

text \<open>
  The path that the pass over a view tests with \<^verbatim>\<open>os.path.isfile\<close>, when it gets that
  far: none for "defaultUnits", for a view without a layers child, for a layers element
  without a non-empty image attribute, and for a template SVG.
\<close>

definition view_asset :: "env \<Rightarrow> string \<Rightarrow> element \<Rightarrow> string option" where
  "view_asset env fzp_path view =
     (if tag view = ''defaultUnits'' then None
      else case xpath_child ''layers'' view of
             [] \<Rightarrow> None
           | layers # _ \<Rightarrow>
               (case element_get layers ''image'' of
                  None \<Rightarrow> None
                | Some img \<Rightarrow>
                    if img = [] then None else get_svg_path env fzp_path img (tag view)))"

text \<open>The layer ids that the pass over a view hands to the SVG rules.\<close>

definition view_layer_ids :: "element \<Rightarrow> string list" where
  "view_layer_ids view =
     (case xpath_child ''layers'' view of
        [] \<Rightarrow> []
      | layers # _ \<Rightarrow> collect_layer_ids (xpath_child ''layer'' layers))"

subsection \<open>Runs that start from an earlier state\<close>

text \<open>The runner with the events \<open>t\<close> put before its own.\<close>

definition prepend :: "event list \<Rightarrow> runner \<Rightarrow> runner" where
  "prepend t r = r\<lparr>trace := t @ trace r\<rparr>"

text \<open>A fresh runner for a path, as \<^verbatim>\<open>FZPCheckerRunner(path, verbose)\<close> builds it.\<close>

definition fresh_runner :: "string \<Rightarrow> bool \<Rightarrow> runner" where
  "fresh_runner p v = \<lparr>path = p, verbose = v, total_errors = 0, trace = []\<rparr>"

text \<open>How a call ended: by returning, or with which exception.\<close>

fun ending :: "'a outcome \<Rightarrow> exn option" where
  "ending (Returned s) = None"
| "ending (Raised e s) = Some e"

subsection \<open>An example installation\<close>

text \<open>
  A small parts directory to run the definitions on. The rule names are those the
  repository's tests select; the rules themselves are stand-ins: the missing-tags rule
  reports one error on a document without a title element, every other rule reports none.
\<close>

definition example_fzp_name :: "fzp_checker \<Rightarrow> string" where
  "example_fzp_name c =
     (case c of
        FZPMissingTagsChecker \<Rightarrow> ''missing_tags''
      | FZPConnectorTerminalChecker \<Rightarrow> ''connector_terminal''
      | FZPConnectorVisibilityChecker \<Rightarrow> ''connector_visibility''
      | FZPPCBConnectorStrokeChecker \<Rightarrow> ''pcb_connector_stroke'')"

definition example_svg_name :: "svg_checker \<Rightarrow> string" where
  "example_svg_name c =
     (case c of
        SVGFontSizeChecker \<Rightarrow> ''font_size''
      | SVGViewBoxChecker \<Rightarrow> ''viewbox''
      | SVGIdsChecker \<Rightarrow> ''ids'')"

definition pcb_view :: element where
  "pcb_view =
     Element ''pcbView'' []
       [Element ''layers'' [(''image'', ''pcb/part.svg'')]
          [Element ''layer'' [(''layerId'', ''copper0'')] []]]"

definition part_doc :: element where
  "part_doc =
     Element ''module'' []
       [Element ''title'' [] [],
        Element ''views'' []
          [Element ''breadboardView'' [] [], Element ''defaultUnits'' [] [], pcb_view]]"

definition broken_svg_doc :: element where
  "broken_svg_doc =
     Element ''module'' []
       [Element ''title'' [] [],
        Element ''views'' []
          [Element ''breadboardView'' []
             [Element ''layers'' [(''image'', ''breadboard/broken.svg'')] []],
           pcb_view]]"

definition no_views_doc :: element where
  "no_views_doc = Element ''module'' [] [Element ''title'' [] []]"

definition untitled_doc :: element where
  "untitled_doc = Element ''module'' [] [Element ''views'' [] [pcb_view]]"

definition empty_views_doc :: element where
  "empty_views_doc = Element ''module'' [] [Element ''views'' [] []]"

definition example_parse :: "string \<Rightarrow> parsed" where
  "example_parse p =
     (if p = ''core/part.fzp'' then Parsed part_doc
      else if p = ''core/untitled.fzp'' then Parsed untitled_doc
      else if p = ''core/broken_svg.fzp'' then Parsed broken_svg_doc
      else if p = ''core/no_views.fzp'' then Parsed no_views_doc
      else if p = ''core/empty_views.fzp'' then Parsed empty_views_doc
      else if p = ''core/bad.fzp'' then XMLSyntaxError ''Opening and ending tag mismatch''
      else if p = ''svg/core/pcb/part.svg'' then Parsed (Element ''svg'' [] [])
      else if p = ''svg/core/breadboard/broken.svg''
        then XMLSyntaxError ''Premature end of data''
      else ReadError ''Error reading file'')"

definition example_env :: env where
  "example_env =
     \<lparr>etree_parse = example_parse,
      isfile = (\<lambda>p. p = ''svg/core/pcb/part.svg'' \<or> p = ''svg/core/breadboard/broken.svg''),
      get_svg_path = (\<lambda>fzp_path image view_tag. Some (''svg/core/'' @ image)),
      fzp_get_name = example_fzp_name,
      fzp_check = (\<lambda>c doc p.
         if c = FZPMissingTagsChecker \<and> xpath_all ''title'' doc = []
         then (1, [''Missing required tag: title'']) else (0, [])),
      svg_get_name = example_svg_name,
      svg_check = (\<lambda>c doc layer_ids. (0, []))\<rparr>"

definition example_runner :: "string \<Rightarrow> runner" where
  "example_runner p = \<lparr>path = p, verbose = False, total_errors = 0, trace = []\<rparr>"

definition example_tree :: fs_dir where
  "example_tree =
     Dir [''untitled.fzp'', ''part.fzp'', ''other.fzp'', ''notes.txt'']
       [(''obsolete'', Dir [''old.fzp''] [])]"

definition example_read :: "string \<Rightarrow> exn + string" where
  "example_read p =
     (if p = ''core/part.fzp'' then Inr ''<layers image=pcb/part.svg>''
      else if p = ''core/untitled.fzp'' then Inr ''<layers image=pcb/part.svg>''
      else if p = ''core/obsolete/old.fzp'' then Inr ''<layers image=pcb/part.svg>''
      else if p = ''core/notes.txt'' then Inr ''see part.svg''
      else Inr ''<layers image=pcb/other.svg>'')"

text \<open>The same directory when core/other.fzp is not valid UTF-8.\<close>

definition example_read_undecodable :: "string \<Rightarrow> exn + string" where
  "example_read_undecodable p =
     (if p = ''core/other.fzp'' then Inl (UnicodeDecodeError ''invalid start byte'')
      else example_read p)"

section \<open>Properties\<close>

lemmas runner_ops = emit_def print_def add_errors_def

lemmas example_defs =
  example_env_def example_runner_def example_parse_def example_fzp_name_def
  example_svg_name_def part_doc_def pcb_view_def broken_svg_doc_def no_views_doc_def
  empty_views_doc_def untitled_doc_def

lemmas lookup_defs =
  get_checker_def get_svg_checker_def AVAILABLE_CHECKERS_def SVG_AVAILABLE_CHECKERS_def

lemmas xpath_defs = xpath_all_def xpath_star_def xpath_child_def element_get_def

subsection \<open>Lookups and the rule loops\<close>

lemma find_SomeD: "find P xs = Some x \<Longrightarrow> P x \<and> x \<in> set xs"
  by (induction xs) (simp_all split: if_splits)

lemma find_fzp_None:
  "check_type \<notin> fzp_names env \<Longrightarrow>
     find (\<lambda>checker. fzp_get_name env checker = check_type) AVAILABLE_CHECKERS = None"
  unfolding find_None_iff fzp_names_def by fastforce

lemma find_fzp_Some:
  "check_type \<in> fzp_names env \<Longrightarrow>
     \<exists>c. find (\<lambda>checker. fzp_get_name env checker = check_type) AVAILABLE_CHECKERS = Some c"
proof -
  assume "check_type \<in> fzp_names env"
  then have "find (\<lambda>checker. fzp_get_name env checker = check_type) AVAILABLE_CHECKERS \<noteq> None"
    unfolding find_None_iff fzp_names_def by fastforce
  then show ?thesis by (cases "find (\<lambda>checker. fzp_get_name env checker = check_type) AVAILABLE_CHECKERS") simp_all
qed

lemma get_checker_unregistered:
  "check_type \<notin> fzp_names env \<Longrightarrow>
     get_checker env r check_type = Inl (ValueError (''Invalid check type: '' @ check_type))"
  by (simp add: get_checker_def find_fzp_None)

lemma get_checker_registered:
  assumes "check_type \<in> fzp_names env"
  shows "\<exists>inst. get_checker env r check_type = Inr inst"
proof -
  from find_fzp_Some[OF assms] obtain c where
    "find (\<lambda>checker. fzp_get_name env checker = check_type) AVAILABLE_CHECKERS = Some c" ..
  then show ?thesis by (simp add: get_checker_def)
qed

lemma find_svg_None:
  "check_type \<notin> svg_names env \<Longrightarrow>
     find (\<lambda>checker. svg_get_name env checker = check_type) SVG_AVAILABLE_CHECKERS = None"
  unfolding find_None_iff svg_names_def by fastforce

lemma get_svg_checker_unregistered:
  "check_type \<notin> svg_names env \<Longrightarrow>
     get_svg_checker env check_type
       = Inl (ValueError (''Invalid SVG check type: '' @ check_type))"
  by (simp add: get_svg_checker_def find_svg_None)

lemma get_svg_checker_registered:
  assumes "check_type \<in> svg_names env"
  shows "\<exists>c. get_svg_checker env check_type = Inr c"
proof -
  from assms have
    "find (\<lambda>checker. svg_get_name env checker = check_type) SVG_AVAILABLE_CHECKERS \<noteq> None"
    unfolding find_None_iff svg_names_def by fastforce
  then show ?thesis by (auto simp: get_svg_checker_def)
qed

lemma get_checker_path_only:
  "path r' = path r \<Longrightarrow> get_checker env r' n = get_checker env r n"
  by (simp add: get_checker_def split: option.splits)

lemma fzp_errors_path_only:
  "path r' = path r \<Longrightarrow> fzp_errors env r' d n = fzp_errors env r d n"
  using get_checker_path_only[of r' r env n] by (simp add: fzp_errors_def)

lemma run_fzp_checks_append:
  "run_fzp_checks env d (pre @ rest) r =
     (case run_fzp_checks env d pre r of
        Returned r' \<Rightarrow> run_fzp_checks env d rest r'
      | Raised e r' \<Rightarrow> Raised e r')"
  by (induction pre arbitrary: r) (simp_all add: Let_def split: sum.splits)

lemma run_svg_checks_append:
  "run_svg_checks env d ids p v (pre @ rest) r =
     (case run_svg_checks env d ids p v pre r of
        Returned r' \<Rightarrow> run_svg_checks env d ids p v rest r'
      | Raised e r' \<Rightarrow> Raised e r')"
  by (induction pre arbitrary: r) (simp_all add: Let_def split: sum.splits)

lemma run_fzp_checks_registered:
  assumes "set cts \<subseteq> fzp_names env"
  shows "\<exists>evs. run_fzp_checks env d cts r
            = Returned (r\<lparr>total_errors := total_errors r + sum_list (map (fzp_errors env r d) cts),
                         trace := trace r @ evs\<rparr>)
          \<and> (\<forall>s. Print s \<in> set evs \<longrightarrow> prefix ''Running check: '' s)"
  using assms
proof (induction cts arbitrary: r)
  case Nil
  show ?case by (rule exI[of _ "[]"]) simp
next
  case (Cons n cts)
  from Cons.prems obtain inst where inst: "get_checker env r n = Inr inst"
    using get_checker_registered[of n env r] by auto
  define r2 where "r2 = add_errors (fst (fzp_check env (fst inst) d (snd inst)))
      (emit (FzpCheck (fzp_get_name env (fst inst)) (snd (fzp_check env (fst inst) d (snd inst))))
        (if verbose r then print (''Running check: '' @ fzp_get_name env (fst inst)) r else r))"
  have step: "run_fzp_checks env d (n # cts) r = run_fzp_checks env d cts r2"
    by (simp add: inst r2_def Let_def)
  have p2: "path r2 = path r" by (simp add: r2_def emit_def print_def add_errors_def)
  from Cons.prems have "set cts \<subseteq> fzp_names env" by simp
  from Cons.IH[OF this, of r2] obtain evs where
    evs: "run_fzp_checks env d cts r2
            = Returned (r2\<lparr>total_errors := total_errors r2 + sum_list (map (fzp_errors env r2 d) cts),
                         trace := trace r2 @ evs\<rparr>)"
    and pr: "\<forall>s. Print s \<in> set evs \<longrightarrow> prefix ''Running check: '' s"
    by (elim exE conjE)
  have same: "map (fzp_errors env r2 d) cts = map (fzp_errors env r d) cts"
    by (rule map_cong[OF refl]) (rule fzp_errors_path_only[OF p2])
  have t2: "total_errors r2 = total_errors r + fzp_errors env r d n"
    by (simp add: r2_def emit_def print_def add_errors_def fzp_errors_def inst)
  define pre where "pre =
     (if verbose r then [Print (''Running check: '' @ fzp_get_name env (fst inst))] else [])
     @ [FzpCheck (fzp_get_name env (fst inst)) (snd (fzp_check env (fst inst) d (snd inst)))]"
  have pre: "trace r2 = trace r @ pre"
    by (simp add: pre_def r2_def emit_def print_def add_errors_def)
  have prepr: "\<forall>s. Print s \<in> set pre \<longrightarrow> prefix ''Running check: '' s"
    by (simp add: pre_def)
  have eq: "r2\<lparr>total_errors := total_errors r2 + sum_list (map (fzp_errors env r2 d) cts),
               trace := trace r2 @ evs\<rparr>
        = r\<lparr>total_errors := total_errors r + sum_list (map (fzp_errors env r d) (n # cts)),
             trace := trace r @ (pre @ evs)\<rparr>"
    unfolding same t2 pre
    by (simp add: r2_def emit_def print_def add_errors_def)
  have a: "\<forall>s. Print s \<in> set (pre @ evs) \<longrightarrow> prefix ''Running check: '' s"
    using pr prepr by auto
  have b: "run_fzp_checks env d (n # cts) r
      = Returned (r\<lparr>total_errors := total_errors r + sum_list (map (fzp_errors env r d) (n # cts)),
             trace := trace r @ (pre @ evs)\<rparr>)"
    using step evs eq by simp
  show ?case
    by (rule exI[of _ "pre @ evs"]) (rule conjI[OF b a])
qed


lemma run_svg_checks_registered:
  assumes "set cts \<subseteq> svg_names env"
  shows "\<exists>evs. run_svg_checks env d ids p v cts r
            = Returned (r\<lparr>total_errors := total_errors r + sum_list (map (svg_errors env d ids) cts),
                         trace := trace r @ evs\<rparr>)
          \<and> (\<forall>s. Print s \<in> set evs \<longrightarrow> prefix ''Running SVG check: '' s)"
  using assms
proof (induction cts arbitrary: r)
  case Nil
  show ?case by (rule exI[of _ "[]"]) simp
next
  case (Cons n cts)
  from Cons.prems obtain c where c: "get_svg_checker env n = Inr c"
    using get_svg_checker_registered[of n env] by auto
  define line where "line = ''Running SVG check: '' @ svg_get_name env c @ '' on '' @ p @ '' for '' @ v"
  define r2 where "r2 = add_errors (fst (svg_check env c d ids))
      (emit (SvgCheck (svg_get_name env c) p (snd (svg_check env c d ids)))
        (if verbose r then print line r else r))"
  have step: "run_svg_checks env d ids p v (n # cts) r = run_svg_checks env d ids p v cts r2"
    by (simp add: c r2_def line_def Let_def)
  from Cons.prems have "set cts \<subseteq> svg_names env" by simp
  from Cons.IH[OF this, of r2] obtain evs where
    evs: "run_svg_checks env d ids p v cts r2
            = Returned (r2\<lparr>total_errors := total_errors r2 + sum_list (map (svg_errors env d ids) cts),
                         trace := trace r2 @ evs\<rparr>)"
    and pr: "\<forall>s. Print s \<in> set evs \<longrightarrow> prefix ''Running SVG check: '' s"
    by (elim exE conjE)
  have t2: "total_errors r2 = total_errors r + svg_errors env d ids n"
    by (simp add: r2_def emit_def print_def add_errors_def svg_errors_def c)
  define pre where "pre =
     (if verbose r then [Print line] else []) @ [SvgCheck (svg_get_name env c) p (snd (svg_check env c d ids))]"
  have pre: "trace r2 = trace r @ pre"
    by (simp add: pre_def r2_def emit_def print_def add_errors_def)
  have prepr: "\<forall>s. Print s \<in> set pre \<longrightarrow> prefix ''Running SVG check: '' s"
    by (simp add: pre_def line_def)
  have eq: "r2\<lparr>total_errors := total_errors r2 + sum_list (map (svg_errors env d ids) cts),
               trace := trace r2 @ evs\<rparr>
        = r\<lparr>total_errors := total_errors r + sum_list (map (svg_errors env d ids) (n # cts)),
             trace := trace r @ (pre @ evs)\<rparr>"
    unfolding t2 pre
    by (simp add: r2_def emit_def print_def add_errors_def)
  have a: "\<forall>s. Print s \<in> set (pre @ evs) \<longrightarrow> prefix ''Running SVG check: '' s"
    using pr prepr by auto
  have b: "run_svg_checks env d ids p v (n # cts) r
      = Returned (r\<lparr>total_errors := total_errors r + sum_list (map (svg_errors env d ids) (n # cts)),
             trace := trace r @ (pre @ evs)\<rparr>)"
    using step evs eq by simp
  show ?case
    by (rule exI[of _ "pre @ evs"]) (rule conjI[OF b a])
qed

lemma sum_list_zero: "(\<forall>x\<in>set xs. f x = (0::int)) \<Longrightarrow> sum_list (map f xs) = 0"
  by (induction xs) auto

lemma not_invalid_xml:
  "\<not> prefix ''Invalid XML'' (''Scanning file: '' @ x)"
  "\<not> prefix ''Invalid XML'' (''Total errors in '' @ x)"
  "prefix ''Running check: '' s \<Longrightarrow> \<not> prefix ''Invalid XML'' s"
  by (auto elim!: prefixE)

lemma check_unknown_fzp_name:
  assumes parse: "etree_parse env (path r) = Parsed fzp_doc"
      and reg: "set pre \<subseteq> fzp_names env"
      and unreg: "n \<notin> fzp_names env"
  shows "\<exists>r'. check env (pre @ n # post) svg_check_types r
                 = Raised (ValueError (''Invalid check type: '' @ n)) r'
              \<and> total_errors r' = sum_list (map (fzp_errors env r fzp_doc) pre)"
proof -
  define sc where "sc = (if verbose r then [Print (''Scanning file: '' @ path r)] else [])"
  define r1 where "r1 = r\<lparr>total_errors := 0, trace := trace r @ Parse (path r) # sc\<rparr>"
  have p1: "path r1 = path r" by (simp add: r1_def)
  from run_fzp_checks_registered[OF reg, of fzp_doc r1] obtain evs where
    evs: "run_fzp_checks env fzp_doc pre r1
            = Returned (r1\<lparr>total_errors := total_errors r1
                               + sum_list (map (fzp_errors env r1 fzp_doc) pre),
                         trace := trace r1 @ evs\<rparr>)"
    by (elim exE conjE)
  have same: "map (fzp_errors env r1 fzp_doc) pre = map (fzp_errors env r fzp_doc) pre"
    by (rule map_cong[OF refl]) (rule fzp_errors_path_only[OF p1])
  define r' where "r' = r\<lparr>total_errors := sum_list (map (fzp_errors env r fzp_doc) pre),
                           trace := trace r @ Parse (path r) # sc @ evs\<rparr>"
  have loop: "run_fzp_checks env fzp_doc (pre @ n # post) r1
                = Raised (ValueError (''Invalid check type: '' @ n)) r'"
    using evs[unfolded same]
    by (simp add: run_fzp_checks_append get_checker_unregistered[OF unreg] r1_def r'_def)
  have "check env (pre @ n # post) svg_check_types r
          = Raised (ValueError (''Invalid check type: '' @ n)) r'"
    using parse loop
    by (cases "verbose r") (simp_all add: check_def Let_def emit_def print_def r1_def sc_def)
  moreover have "total_errors r' = sum_list (map (fzp_errors env r fzp_doc) pre)"
    by (simp add: r'_def)
  ultimately show ?thesis by (intro exI[of _ r'] conjI)
qed

lemma svg_view_unknown_svg_name:
  assumes view: "tag view \<noteq> ''defaultUnits''"
      and layers: "xpath_child ''layers'' view = layers # more_layers"
      and img: "element_get layers ''image'' = Some img" "img \<noteq> []"
      and resolved: "get_svg_path env (path r) img (tag view) = Some svg_path"
      and present: "isfile env svg_path"
      and parse: "etree_parse env svg_path = Parsed svg_doc"
      and reg: "set pre \<subseteq> svg_names env"
      and unreg: "n \<notin> svg_names env"
  shows "\<exists>fr'. svg_view env (pre @ n # post) view (r, local_doc)
                  = Raised (ValueError (''Invalid SVG check type: '' @ n)) fr'
               \<and> total_errors (fst fr')
                   = total_errors r
                     + sum_list (map (svg_errors env svg_doc
                                        (collect_layer_ids (xpath_child ''layer'' layers))) pre)"
proof -
  define ids where "ids = collect_layer_ids (xpath_child ''layer'' layers)"
  define r3 where "r3 = r\<lparr>trace := trace r @ [GetSvgPath (path r) img (tag view),
                                                IsFile svg_path, Parse svg_path]\<rparr>"
  from run_svg_checks_registered[OF reg, of svg_doc ids svg_path "tag view" r3] obtain evs where
    evs: "run_svg_checks env svg_doc ids svg_path (tag view) pre r3
            = Returned (r3\<lparr>total_errors := total_errors r3
                               + sum_list (map (svg_errors env svg_doc ids) pre),
                         trace := trace r3 @ evs\<rparr>)"
    by (elim exE conjE)
  define r4 where "r4 = r3\<lparr>total_errors := total_errors r3
                               + sum_list (map (svg_errors env svg_doc ids) pre),
                         trace := trace r3 @ evs\<rparr>"
  have loop: "run_svg_checks env svg_doc ids svg_path (tag view) (pre @ n # post) r3
                = Raised (ValueError (''Invalid SVG check type: '' @ n)) r4"
    using evs
    by (simp add: run_svg_checks_append get_svg_checker_unregistered[OF unreg] r4_def)
  have "svg_view env (pre @ n # post) view (r, local_doc)
          = Raised (ValueError (''Invalid SVG check type: '' @ n)) (r4, Some (clear svg_doc))"
    using view layers img resolved present parse loop
    by (simp add: svg_view_def Let_def emit_def r3_def ids_def)
  moreover have "total_errors r4 = total_errors r + sum_list (map (svg_errors env svg_doc ids) pre)"
    by (simp add: r4_def r3_def)
  ultimately show ?thesis unfolding ids_def by (intro exI[of _ "(r4, Some (clear svg_doc))"] conjI) simp_all
qed

subsection \<open>Views without an asset on disk\<close>

lemma svg_view_no_asset:
  assumes "view_asset env (path r) view = None"
  shows "\<exists>evs. svg_view env scts view (r, sd) = Returned (r\<lparr>trace := trace r @ evs\<rparr>, sd)"
proof (cases "tag view = ''defaultUnits''")
  case True
  then have "svg_view env scts view (r, sd) = Returned (r\<lparr>trace := trace r @ []\<rparr>, sd)"
    by (simp add: svg_view_def)
  then show ?thesis by (rule exI)
next
  case view: False
  show ?thesis
  proof (cases "xpath_child ''layers'' view")
    case Nil
    with view have "svg_view env scts view (r, sd)
      = Returned (r\<lparr>trace := trace r @
                    [Print (''Warning: No '' @ sq ''layers'' @ '' element found in view ''
                            @ sq (tag view) @ '' of file '' @ sq (path r))]\<rparr>, sd)"
      by (simp add: svg_view_def runner_ops)
    then show ?thesis by (rule exI)
  next
    case (Cons layers more)
    show ?thesis
    proof (cases "element_get layers ''image''")
      case None
      with view Cons have "svg_view env scts view (r, sd) = Returned (r\<lparr>trace := trace r @ []\<rparr>, sd)"
        by (simp add: svg_view_def)
      then show ?thesis by (rule exI)
    next
      case (Some img)
      show ?thesis
      proof (cases "img = []")
        case True
        with view Cons Some have
          "svg_view env scts view (r, sd) = Returned (r\<lparr>trace := trace r @ []\<rparr>, sd)"
          by (simp add: svg_view_def)
        then show ?thesis by (rule exI)
      next
        case False
        with assms view Cons Some have "get_svg_path env (path r) img (tag view) = None"
          by (simp add: view_asset_def)
        with view Cons Some False have "svg_view env scts view (r, sd)
          = Returned (r\<lparr>trace := trace r @ [GetSvgPath (path r) img (tag view)]\<rparr>, sd)"
          by (simp add: svg_view_def Let_def runner_ops)
        then show ?thesis by (rule exI)
      qed
    qed
  qed
qed

lemma view_asset_SomeD:
  assumes "view_asset env p view = Some sp"
  obtains layers more img where
    "tag view \<noteq> ''defaultUnits''" "xpath_child ''layers'' view = layers # more"
    "element_get layers ''image'' = Some img" "img \<noteq> []"
    "get_svg_path env p img (tag view) = Some sp"
  using assms
  by (auto simp: view_asset_def split: if_splits list.splits option.splits)

lemma svg_view_missing_file:
  assumes asset: "view_asset env (path r) view = Some sp" and missing: "\<not> isfile env sp"
  shows "\<exists>evs. svg_view env scts view (r, sd)
           = Returned (r\<lparr>total_errors := total_errors r + 1, trace := trace r @ evs\<rparr>, sd)"
proof -
  from asset obtain layers more img where
    v: "tag view \<noteq> ''defaultUnits''" "xpath_child ''layers'' view = layers # more"
       "element_get layers ''image'' = Some img" "img \<noteq> []"
       "get_svg_path env (path r) img (tag view) = Some sp"
    by (rule view_asset_SomeD)
  with missing have "svg_view env scts view (r, sd)
    = Returned (r\<lparr>total_errors := total_errors r + 1,
                  trace := trace r @
                    [GetSvgPath (path r) img (tag view), IsFile sp,
                     Print (''Warning: SVG '' @ sq sp @ '' for view ''
                            @ sq (tag view) @ '' of file '' @ sq (path r)
                            @ '' not found.'')]\<rparr>, sd)"
    by (simp add: svg_view_def Let_def runner_ops)
  then show ?thesis by (rule exI)
qed

lemma run_views_append:
  "run_views env scts (vs @ ws) fr
     = (case run_views env scts vs fr of
          Returned fr' \<Rightarrow> run_views env scts ws fr'
        | Raised e fr' \<Rightarrow> Raised e fr')"
proof (induction vs arbitrary: fr)
  case Nil
  show ?case by simp
next
  case (Cons v vs)
  show ?case by (cases "svg_view env scts v fr") (simp_all add: Cons.IH)
qed

lemma run_views_no_file:
  assumes "\<forall>v\<in>set vs. \<forall>sp. view_asset env (path r) v = Some sp \<longrightarrow> \<not> isfile env sp"
  shows "\<exists>evs. run_views env scts vs (r, sd)
           = Returned (r\<lparr>total_errors := total_errors r
                            + int (length (filter (\<lambda>v. view_asset env (path r) v \<noteq> None) vs)),
                         trace := trace r @ evs\<rparr>, sd)"
  using assms
proof (induction vs arbitrary: r)
  case Nil
  have "run_views env scts [] (r, sd)
          = Returned (r\<lparr>total_errors := total_errors r
                            + int (length (filter (\<lambda>v. view_asset env (path r) v \<noteq> None) [])),
                         trace := trace r @ []\<rparr>, sd)"
    by simp
  then show ?case by (rule exI)
next
  case (Cons v vs)
  define k where "k = (if view_asset env (path r) v = None then 0 else (1::int))"
  have "\<exists>evs. svg_view env scts v (r, sd)
           = Returned (r\<lparr>total_errors := total_errors r + k, trace := trace r @ evs\<rparr>, sd)"
  proof (cases "view_asset env (path r) v")
    case None
    from svg_view_no_asset[OF None, of scts sd] show ?thesis by (simp add: k_def None)
  next
    case (Some sp)
    with Cons.prems have "\<not> isfile env sp" by simp
    from svg_view_missing_file[OF Some this, of scts sd] show ?thesis by (simp add: k_def Some)
  qed
  then obtain evs1 where step: "svg_view env scts v (r, sd)
           = Returned (r\<lparr>total_errors := total_errors r + k, trace := trace r @ evs1\<rparr>, sd)" ..
  define r1 where "r1 = r\<lparr>total_errors := total_errors r + k, trace := trace r @ evs1\<rparr>"
  have p1: "path r1 = path r" by (simp add: r1_def)
  from Cons.prems have
    "\<forall>v\<in>set vs. \<forall>sp. view_asset env (path r1) v = Some sp \<longrightarrow> \<not> isfile env sp"
    unfolding p1 by simp
  from Cons.IH[OF this] obtain evs2 where rest: "run_views env scts vs (r1, sd)
           = Returned (r1\<lparr>total_errors := total_errors r1
                            + int (length (filter (\<lambda>v. view_asset env (path r1) v \<noteq> None) vs)),
                         trace := trace r1 @ evs2\<rparr>, sd)" ..
  have count: "k + int (length (filter (\<lambda>v. view_asset env (path r) v \<noteq> None) vs))
                 = int (length (filter (\<lambda>v. view_asset env (path r) v \<noteq> None) (v # vs)))"
    by (simp add: k_def)
  have "run_views env scts (v # vs) (r, sd)
          = Returned (r\<lparr>total_errors := total_errors r
                            + int (length (filter (\<lambda>v. view_asset env (path r) v \<noteq> None) (v # vs))),
                         trace := trace r @ (evs1 @ evs2)\<rparr>, sd)"
    unfolding count[symmetric]
    using step rest unfolding p1 by (simp add: r1_def)
  then show ?case by (rule exI)
qed


lemma svg_view_unknown_from_asset:
  assumes asset: "view_asset env (path r) view = Some sp"
      and present: "isfile env sp"
      and parse: "etree_parse env sp = Parsed svg_doc"
      and reg: "set svg_pre \<subseteq> svg_names env"
      and unreg: "m \<notin> svg_names env"
  shows "\<exists>fr'. svg_view env (svg_pre @ m # svg_post) view (r, sd)
                  = Raised (ValueError (''Invalid SVG check type: '' @ m)) fr'
               \<and> total_errors (fst fr')
                   = total_errors r
                     + sum_list (map (svg_errors env svg_doc (view_layer_ids view)) svg_pre)"
proof -
  from asset obtain layers more img where
    v: "tag view \<noteq> ''defaultUnits''" "xpath_child ''layers'' view = layers # more"
       "element_get layers ''image'' = Some img" "img \<noteq> []"
       "get_svg_path env (path r) img (tag view) = Some sp"
    by (rule view_asset_SomeD)
  have ids: "view_layer_ids view = collect_layer_ids (xpath_child ''layer'' layers)"
    by (simp add: view_layer_ids_def v(2))
  from svg_view_unknown_svg_name[OF v present parse reg unreg, of svg_post sd]
  show ?thesis unfolding ids .
qed

lemma check_unknown_svg_name:
  assumes parse: "etree_parse env (path r) = Parsed fzp_doc"
      and reg: "set check_types \<subseteq> fzp_names env"
      and views: "xpath_all ''views'' fzp_doc = views # more_views"
      and children: "xpath_star views = before @ view # rest"
      and nofile: "\<forall>v\<in>set before. \<forall>sp. view_asset env (path r) v = Some sp \<longrightarrow> \<not> isfile env sp"
      and asset: "view_asset env (path r) view = Some sp"
      and present: "isfile env sp"
      and svg_parse: "etree_parse env sp = Parsed svg_doc"
      and svg_reg: "set svg_pre \<subseteq> svg_names env"
      and unreg: "m \<notin> svg_names env"
  shows "\<exists>r'. check env check_types (svg_pre @ m # svg_post) r
                 = Raised (ValueError (''Invalid SVG check type: '' @ m)) r'
              \<and> total_errors r'
                  = sum_list (map (fzp_errors env r fzp_doc) check_types)
                    + int (length (filter (\<lambda>v. view_asset env (path r) v \<noteq> None) before))
                    + sum_list (map (svg_errors env svg_doc (view_layer_ids view)) svg_pre)"
proof -
  define scts where "scts = svg_pre @ m # svg_post"
  have scts: "scts \<noteq> []" by (simp add: scts_def)
  define sc where "sc = (if verbose r then [Print (''Scanning file: '' @ path r)] else [])"
  define r1 where "r1 = r\<lparr>total_errors := 0, trace := trace r @ Parse (path r) # sc\<rparr>"
  have p1: "path r1 = path r" by (simp add: r1_def)
  from run_fzp_checks_registered[OF reg, of fzp_doc r1] obtain evs where
    evs: "run_fzp_checks env fzp_doc check_types r1
            = Returned (r1\<lparr>total_errors := total_errors r1
                               + sum_list (map (fzp_errors env r1 fzp_doc) check_types),
                         trace := trace r1 @ evs\<rparr>)"
    by (elim exE conjE)
  have same: "map (fzp_errors env r1 fzp_doc) check_types = map (fzp_errors env r fzp_doc) check_types"
    by (rule map_cong[OF refl]) (rule fzp_errors_path_only[OF p1])
  define r2 where "r2 = r\<lparr>total_errors := sum_list (map (fzp_errors env r fzp_doc) check_types),
                           trace := trace r @ Parse (path r) # sc @ evs\<rparr>"
  have fzp: "run_fzp_checks env fzp_doc check_types r1 = Returned r2"
    using evs unfolding same by (simp add: r1_def r2_def)
  have p2: "path r2 = path r" by (simp add: r2_def)
  from nofile have
    "\<forall>v\<in>set before. \<forall>sp. view_asset env (path r2) v = Some sp \<longrightarrow> \<not> isfile env sp"
    unfolding p2 .
  from run_views_no_file[OF this, of scts None] obtain evs2 where
    pre: "run_views env scts before (r2, None)
           = Returned (r2\<lparr>total_errors := total_errors r2
                            + int (length (filter (\<lambda>v. view_asset env (path r2) v \<noteq> None) before)),
                         trace := trace r2 @ evs2\<rparr>, None)" ..
  define r3 where "r3 = r2\<lparr>total_errors := total_errors r2
                            + int (length (filter (\<lambda>v. view_asset env (path r) v \<noteq> None) before)),
                         trace := trace r2 @ evs2\<rparr>"
  have pre': "run_views env scts before (r2, None) = Returned (r3, None)"
    using pre unfolding p2 r3_def .
  have p3: "path r3 = path r" by (simp add: r3_def p2)
  from asset have "view_asset env (path r3) view = Some sp" unfolding p3 .
  from svg_view_unknown_from_asset[OF this present svg_parse svg_reg unreg, of svg_post None]
  obtain fr' where
    raise: "svg_view env scts view (r3, None)
              = Raised (ValueError (''Invalid SVG check type: '' @ m)) fr'"
    and tot: "total_errors (fst fr')
               = total_errors r3
                 + sum_list (map (svg_errors env svg_doc (view_layer_ids view)) svg_pre)"
    unfolding scts_def by (elim exE conjE)
  have loop: "run_views env scts (before @ view # rest) (r2, None)
                = Raised (ValueError (''Invalid SVG check type: '' @ m)) fr'"
    unfolding run_views_append pre' by (simp add: raise)
  have svg: "run_svg_checkers env fzp_doc scts r2
               = Raised (ValueError (''Invalid SVG check type: '' @ m)) (fst fr')"
    by (simp add: run_svg_checkers_def views children loop)
  have "check env check_types scts r
          = Raised (ValueError (''Invalid SVG check type: '' @ m)) (fst fr')"
    using parse fzp svg scts
    by (cases "verbose r")
       (simp_all add: check_def Let_def emit_def print_def r1_def sc_def)
  moreover have "total_errors (fst fr')
                  = sum_list (map (fzp_errors env r fzp_doc) check_types)
                    + int (length (filter (\<lambda>v. view_asset env (path r) v \<noteq> None) before))
                    + sum_list (map (svg_errors env svg_doc (view_layer_ids view)) svg_pre)"
    unfolding tot by (simp add: r3_def r2_def)
  ultimately show ?thesis unfolding scts_def by (intro exI[of _ "fst fr'"] conjI)
qed

lemma check_no_asset_on_disk:
  assumes parse: "etree_parse env (path r) = Parsed fzp_doc"
      and reg: "set check_types \<subseteq> fzp_names env"
      and views: "xpath_all ''views'' fzp_doc = views # more_views"
      and nofile: "\<forall>v\<in>set (xpath_star views).
                     \<forall>sp. view_asset env (path r) v = Some sp \<longrightarrow> \<not> isfile env sp"
      and scts: "svg_check_types \<noteq> []"
  shows "\<exists>r'. check env check_types svg_check_types r = Returned r'
              \<and> total_errors r'
                  = sum_list (map (fzp_errors env r fzp_doc) check_types)
                    + int (length (filter (\<lambda>v. view_asset env (path r) v \<noteq> None)
                                     (xpath_star views)))"
proof -
  define sc where "sc = (if verbose r then [Print (''Scanning file: '' @ path r)] else [])"
  define r1 where "r1 = r\<lparr>total_errors := 0, trace := trace r @ Parse (path r) # sc\<rparr>"
  have p1: "path r1 = path r" by (simp add: r1_def)
  from run_fzp_checks_registered[OF reg, of fzp_doc r1] obtain evs where
    evs: "run_fzp_checks env fzp_doc check_types r1
            = Returned (r1\<lparr>total_errors := total_errors r1
                               + sum_list (map (fzp_errors env r1 fzp_doc) check_types),
                         trace := trace r1 @ evs\<rparr>)"
    by (elim exE conjE)
  have same: "map (fzp_errors env r1 fzp_doc) check_types = map (fzp_errors env r fzp_doc) check_types"
    by (rule map_cong[OF refl]) (rule fzp_errors_path_only[OF p1])
  define r2 where "r2 = r\<lparr>total_errors := sum_list (map (fzp_errors env r fzp_doc) check_types),
                           trace := trace r @ Parse (path r) # sc @ evs\<rparr>"
  have fzp: "run_fzp_checks env fzp_doc check_types r1 = Returned r2"
    using evs unfolding same by (simp add: r1_def r2_def)
  have p2: "path r2 = path r" by (simp add: r2_def)
  from nofile have
    "\<forall>v\<in>set (xpath_star views).
       \<forall>sp. view_asset env (path r2) v = Some sp \<longrightarrow> \<not> isfile env sp"
    unfolding p2 .
  from run_views_no_file[OF this, of svg_check_types None] obtain evs2 where
    pre: "run_views env svg_check_types (xpath_star views) (r2, None)
           = Returned (r2\<lparr>total_errors := total_errors r2
                            + int (length (filter (\<lambda>v. view_asset env (path r2) v \<noteq> None)
                                             (xpath_star views))),
                         trace := trace r2 @ evs2\<rparr>, None)" ..
  define r3 where "r3 = r2\<lparr>total_errors := total_errors r2
                            + int (length (filter (\<lambda>v. view_asset env (path r) v \<noteq> None)
                                             (xpath_star views))),
                         trace := trace r2 @ evs2\<rparr>"
  have svg: "run_svg_checkers env fzp_doc svg_check_types r2 = Returned r3"
    using pre unfolding p2 by (simp add: run_svg_checkers_def views r3_def)
  define r' where "r' = (if verbose r3 \<or> total_errors r3 > 0
                       then print (''Total errors in '' @ path r3 @ '': ''
                                   @ str_int (total_errors r3)) r3
                       else r3)"
  have "check env check_types svg_check_types r = Returned r'"
    using parse fzp svg scts
    by (cases "verbose r")
       (simp_all add: check_def Let_def emit_def print_def r1_def sc_def r'_def)
  moreover have "total_errors r'
                  = sum_list (map (fzp_errors env r fzp_doc) check_types)
                    + int (length (filter (\<lambda>v. view_asset env (path r) v \<noteq> None)
                                     (xpath_star views)))"
    by (simp add: r'_def r3_def r2_def print_def emit_def)
  ultimately show ?thesis by (intro exI[of _ r'] conjI)
qed

subsection \<open>The walk and its loops\<close>

lemma take_eq_prefix: "take (length sub) s = sub \<longleftrightarrow> prefix sub s"
proof
  assume "take (length sub) s = sub"
  then show "prefix sub s" using take_is_prefix[of "length sub" s] by simp
next
  assume "prefix sub s"
  then obtain zs where "s = sub @ zs" by (auto elim: prefixE)
  then show "take (length sub) s = sub" by simp
qed

lemma str_in_sublist: "str_in sub s \<longleftrightarrow> sublist sub s"
proof (induction s)
  case Nil
  show ?case by simp
next
  case (Cons c cs)
  show ?case
    unfolding str_in.simps take_eq_prefix Cons.IH sublist_Cons_right ..
qed

lemma endswith_suffix: "endswith s suf \<longleftrightarrow> suffix suf s"
proof
  assume "endswith s suf"
  then have "drop (length s - length suf) s = suf" by (simp add: endswith_def)
  then show "suffix suf s" using suffix_drop[of "length s - length suf" s] by simp
next
  assume "suffix suf s"
  then obtain zs where "s = zs @ suf" by (auto simp: suffix_def)
  then show "endswith s suf" by (simp add: endswith_def)
qed

lemma os_walk_complete:
  "file_under tree start dp name \<Longrightarrow>
     \<exists>dirs fs. (dp, dirs, fs) \<in> set (os_walk start tree) \<and> name \<in> set fs"
proof (induction rule: file_under.induct)
  case (here name tree start)
  then show ?case by (cases tree) auto
next
  case (below d sub tree start dp name)
  then show ?case by (cases tree) force
qed

lemma os_walk_sound:
  "(dp, dirs, fs) \<in> set (os_walk start tree) \<Longrightarrow> name \<in> set fs
     \<Longrightarrow> file_under tree start dp name"
proof (induction start tree rule: os_walk.induct)
  case (1 start fs' ds)
  from "1.prems"(1) consider
      (top) "dp = start" "fs = fs'"
    | (sub) nd where "nd \<in> set ds" "(dp, dirs, fs) \<in> set (os_walk (os_path_join start (fst nd)) (snd nd))"
    by auto
  then show ?case
  proof cases
    case top
    with "1.prems"(2) show ?thesis by (auto intro: file_under.here)
  next
    case sub
    from "1.IH"[OF sub(1) sub(2) "1.prems"(2)]
    have "file_under (snd nd) (os_path_join start (fst nd)) dp name" .
    moreover from sub(1) have "(fst nd, snd nd) \<in> set (subdirs (Dir fs' ds))" by simp
    ultimately show ?thesis by (rule file_under.below[rotated])
  qed
qed

lemma scan_paths_append:
  "scan_paths rd fn (ps @ qs) acc
     = (case scan_paths rd fn ps acc of
          Inl e \<Rightarrow> Inl e
        | Inr found \<Rightarrow> scan_paths rd fn qs found)"
proof (induction ps arbitrary: acc)
  case Nil
  show ?case by simp
next
  case (Cons p ps)
  show ?case by (cases "rd p") (simp_all add: Cons.IH)
qed

lemma scan_files_paths:
  "scan_files rd fn root fs acc
     = scan_paths rd fn (map (os_path_join root) (filter (\<lambda>f. endswith f ''.fzp'') fs)) acc"
proof (induction fs arbitrary: acc)
  case Nil
  show ?case by simp
next
  case (Cons f fs)
  show ?case
  proof (cases "endswith f ''.fzp''")
    case False
    then show ?thesis by (simp add: Cons.IH)
  next
    case True
    then show ?thesis
      by (cases "rd (os_path_join root f)") (simp_all add: Cons.IH)
  qed
qed

lemma scan_walk_skip:
  "\<not> ob \<and> has_segment ''obsolete'' root \<Longrightarrow>
     scan_walk rd fn ob ((root, dirs, fs) # w) acc = scan_walk rd fn ob w acc"
  by (auto simp: has_segment_def)

lemma scan_walk_scan:
  "\<not> (\<not> ob \<and> has_segment ''obsolete'' root) \<Longrightarrow>
     scan_walk rd fn ob ((root, dirs, fs) # w) acc
       = (case scan_files rd fn root fs acc of
            Inl e \<Rightarrow> Inl e
          | Inr found \<Rightarrow> scan_walk rd fn ob w found)"
  by (auto simp: has_segment_def)

lemma scan_walk_paths:
  "scan_walk rd fn ob w acc = scan_paths rd fn (walk_opened ob w) acc"
proof (induction w arbitrary: acc)
  case Nil
  show ?case by simp
next
  case (Cons t w)
  obtain root dirs fs where t: "t = (root, dirs, fs)" by (cases t)
  show ?case
  proof (cases "\<not> ob \<and> has_segment ''obsolete'' root")
    case True
    have "walk_opened ob (t # w) = walk_opened ob w"
      using True unfolding t by simp
    then show ?thesis
      unfolding t scan_walk_skip[OF True] Cons.IH by (simp add: t)
  next
    case False
    have "walk_opened ob (t # w)
            = map (os_path_join root) (filter (\<lambda>f. endswith f ''.fzp'') fs) @ walk_opened ob w"
      using False unfolding t by auto
    then show ?thesis
      unfolding t scan_walk_scan[OF False] scan_files_paths
      by (simp add: t scan_paths_append Cons.IH cong: sum.case_cong)
  qed
qed

lemma scan_paths_readable:
  "\<forall>p\<in>set ps. \<exists>content. rd p = Inr content \<Longrightarrow>
     scan_paths rd fn ps acc
       = Inr (acc @ filter (\<lambda>p. \<exists>content. rd p = Inr content \<and> str_in fn content) ps)"
proof (induction ps arbitrary: acc)
  case Nil
  show ?case by simp
next
  case (Cons p ps)
  from Cons.prems obtain c where c: "rd p = Inr c" by auto
  from Cons.prems have rest: "\<forall>p\<in>set ps. \<exists>content. rd p = Inr content" by simp
  show ?case by (simp add: c Cons.IH[OF rest])
qed

lemma scan_paths_unreadable:
  "\<exists>p\<in>set ps. \<exists>e. rd p = Inl e \<Longrightarrow>
     \<exists>p\<in>set ps. \<exists>e. rd p = Inl e \<and> scan_paths rd fn ps acc = Inl e"
proof (induction ps arbitrary: acc)
  case Nil
  then show ?case by simp
next
  case (Cons p ps)
  show ?case
  proof (cases "rd p")
    case (Inl e)
    then show ?thesis by auto
  next
    case (Inr c)
    with Cons.prems have "\<exists>p\<in>set ps. \<exists>e. rd p = Inl e" by auto
    from Cons.IH[OF this, of "if str_in fn c then acc @ [p] else acc"] Inr
    show ?thesis by auto
  qed
qed

lemma in_walk_opened:
  "p \<in> set (walk_opened ob w) \<longleftrightarrow>
     (\<exists>root dirs fs f. (root, dirs, fs) \<in> set w \<and> f \<in> set fs
         \<and> (ob \<or> \<not> has_segment ''obsolete'' root)
         \<and> endswith f ''.fzp'' \<and> p = os_path_join root f)"
  (is "?L w \<longleftrightarrow> ?R w")
proof (induction w)
  case Nil
  show ?case by simp
next
  case (Cons t w)
  obtain root dirs fs where t: "t = (root, dirs, fs)" by (cases t)
  define here where "here \<longleftrightarrow> (ob \<or> \<not> has_segment ''obsolete'' root) \<and>
     (\<exists>f. f \<in> set fs \<and> endswith f ''.fzp'' \<and> p = os_path_join root f)"
  have split: "?R (t # w) \<longleftrightarrow> here \<or> ?R w"
    unfolding t here_def by (simp only: set_simps insert_iff prod.inject) blast
  show ?case
  proof (cases "\<not> ob \<and> has_segment ''obsolete'' root")
    case True
    then have "\<not> here" by (simp add: here_def)
    moreover from True have "?L (t # w) \<longleftrightarrow> ?L w"
      unfolding t by simp
    ultimately show ?thesis unfolding split Cons.IH by simp
  next
    case False
    then have h: "here \<longleftrightarrow> (\<exists>f. f \<in> set fs \<and> endswith f ''.fzp'' \<and> p = os_path_join root f)"
      by (auto simp: here_def)
    from False have "?L (t # w) \<longleftrightarrow>
        (\<exists>f. f \<in> set fs \<and> endswith f ''.fzp'' \<and> p = os_path_join root f) \<or> ?L w"
      unfolding t by auto
    then show ?thesis unfolding split Cons.IH h .
  qed
qed

lemma walk_opened_files:
  "set (walk_opened (has_segment ''obsolete'' svg_file) (os_walk fzp_dir tree))
     = opened_fzp_files tree svg_file fzp_dir"
proof (intro equalityI subsetI)
  fix p
  assume "p \<in> set (walk_opened (has_segment ''obsolete'' svg_file) (os_walk fzp_dir tree))"
  then obtain root dirs fs f where
        w: "(root, dirs, fs) \<in> set (os_walk fzp_dir tree)" and f: "f \<in> set fs"
    and ob: "has_segment ''obsolete'' svg_file \<or> \<not> has_segment ''obsolete'' root"
    and fzp: "endswith f ''.fzp''"
    and p: "p = os_path_join root f"
    unfolding in_walk_opened by blast
  from os_walk_sound[OF w f] have "file_under tree fzp_dir root f" .
  with ob fzp p show "p \<in> opened_fzp_files tree svg_file fzp_dir"
    unfolding opened_fzp_files_def endswith_suffix by blast
next
  fix p
  assume "p \<in> opened_fzp_files tree svg_file fzp_dir"
  then obtain dp name where
        under: "file_under tree fzp_dir dp name"
    and fzp: "suffix ''.fzp'' name"
    and ob: "has_segment ''obsolete'' svg_file \<or> \<not> has_segment ''obsolete'' dp"
    and p: "p = os_path_join dp name"
    unfolding opened_fzp_files_def by blast
  from os_walk_complete[OF under] obtain dirs fs where
    "(dp, dirs, fs) \<in> set (os_walk fzp_dir tree)" "name \<in> set fs" by blast
  with fzp ob p show
    "p \<in> set (walk_opened (has_segment ''obsolete'' svg_file) (os_walk fzp_dir tree))"
    unfolding in_walk_opened endswith_suffix by blast
qed

lemma search_paths:
  "search_fzp_files_with_svg rd tree svg_file fzp_dir
     = scan_paths rd (basename svg_file)
         (walk_opened (has_segment ''obsolete'' svg_file) (os_walk fzp_dir tree)) []"
  by (simp add: search_fzp_files_with_svg_def scan_walk_paths has_segment_def)

subsection \<open>A run does not depend on what came before it\<close>

lemma prepend_simps:
  "path (prepend t r) = path r"
  "verbose (prepend t r) = verbose r"
  "total_errors (prepend t r) = total_errors r"
  "trace (prepend t r) = t @ trace r"
  "emit ev (prepend t r) = prepend t (emit ev r)"
  "print s (prepend t r) = prepend t (print s r)"
  "add_errors k (prepend t r) = prepend t (add_errors k r)"
  by (simp_all add: prepend_def emit_def print_def add_errors_def)

lemma get_checker_prepend: "get_checker env (prepend t r) n = get_checker env r n"
  by (rule get_checker_path_only) (simp add: prepend_simps)

lemma run_fzp_checks_prepend:
  "run_fzp_checks env d cts (prepend t r) = map_outcome (prepend t) (run_fzp_checks env d cts r)"
proof (induction cts arbitrary: r)
  case Nil
  show ?case by simp
next
  case (Cons n cts)
  show ?case
  proof (cases "get_checker env r n")
    case (Inl e)
    then show ?thesis by (simp add: get_checker_prepend)
  next
    case (Inr inst)
    then show ?thesis
      by (simp add: get_checker_prepend prepend_simps Let_def Cons.IH)
  qed
qed

lemma run_svg_checks_prepend:
  "run_svg_checks env d ids p v cts (prepend t r)
     = map_outcome (prepend t) (run_svg_checks env d ids p v cts r)"
proof (induction cts arbitrary: r)
  case Nil
  show ?case by simp
next
  case (Cons n cts)
  show ?case
  proof (cases "get_svg_checker env n")
    case (Inl e)
    then show ?thesis by simp
  next
    case (Inr c)
    then show ?thesis
      by (simp add: prepend_simps Let_def Cons.IH)
  qed
qed

lemma svg_view_prepend:
  "svg_view env scts view (prepend t r, sd)
     = map_outcome (\<lambda>fr. (prepend t (fst fr), snd fr)) (svg_view env scts view (r, sd))"
  by (simp add: svg_view_def Let_def prepend_simps run_svg_checks_prepend
           split: list.splits option.splits parsed.splits outcome.splits)


lemma run_views_prepend:
  "run_views env scts views (prepend t r, sd)
     = map_outcome (\<lambda>fr. (prepend t (fst fr), snd fr)) (run_views env scts views (r, sd))"
proof (induction views arbitrary: r sd)
  case Nil
  show ?case by simp
next
  case (Cons view views)
  show ?case
  proof (cases "svg_view env scts view (r, sd)")
    case (Returned fr)
    then show ?thesis
      using Cons.IH[of "fst fr" "snd fr"] by (simp add: svg_view_prepend)
  next
    case (Raised e fr)
    then show ?thesis by (simp add: svg_view_prepend)
  qed
qed

lemma run_svg_checkers_prepend:
  "run_svg_checkers env d scts (prepend t r)
     = map_outcome (prepend t) (run_svg_checkers env d scts r)"
  by (simp add: run_svg_checkers_def run_views_prepend split: list.splits outcome.splits)

lemma check_prepend:
  "check env cts scts (prepend t r) = map_outcome (prepend t) (check env cts scts r)"
proof -
  define r0 where "r0 = emit (Parse (path r)) (r\<lparr>total_errors := 0\<rparr>)"
  have start: "emit (Parse (path (prepend t r))) ((prepend t r)\<lparr>total_errors := 0\<rparr>)
                 = prepend t r0"
    by (simp add: r0_def prepend_def emit_def)
  have p0: "path r0 = path r" "verbose r0 = verbose r"
    by (simp_all add: r0_def emit_def)
  show ?thesis
  proof (cases "etree_parse env (path r)")
    case (XMLSyntaxError msg)
    then show ?thesis
      unfolding check_def Let_def start r0_def[symmetric]
      by (simp add: prepend_simps p0)
  next
    case (ReadError msg)
    then show ?thesis
      unfolding check_def Let_def start r0_def[symmetric]
      by (simp add: prepend_simps p0)
  next
    case (Parsed d)
    define r1 where "r1 = (if verbose r then print (''Scanning file: '' @ path r) r0 else r0)"
    have r1: "(if verbose (prepend t r0) then print (''Scanning file: '' @ path (prepend t r0)) (prepend t r0)
               else prepend t r0) = prepend t r1"
      by (simp add: r1_def prepend_simps p0)
    have lhs: "check env cts scts (prepend t r)
      = (case run_fzp_checks env d cts (prepend t r1) of
             Raised e r2 \<Rightarrow> Raised e r2
           | Returned r2 \<Rightarrow>
               (case (if scts \<noteq> []
                      then run_svg_checkers env d scts r2
                      else Returned r2) of
                  Raised e r3 \<Rightarrow> Raised e r3
                | Returned r3 \<Rightarrow>
                    Returned
                      (if verbose r3 \<or> total_errors r3 > 0
                       then print (''Total errors in '' @ path r3 @ '': ''
                                   @ str_int (total_errors r3)) r3
                       else r3)))"
      unfolding check_def Let_def start r1
      by (simp add: prepend_simps p0 Parsed)
    have rhs: "check env cts scts r
      = (case run_fzp_checks env d cts r1 of
             Raised e r2 \<Rightarrow> Raised e r2
           | Returned r2 \<Rightarrow>
               (case (if scts \<noteq> []
                      then run_svg_checkers env d scts r2
                      else Returned r2) of
                  Raised e r3 \<Rightarrow> Raised e r3
                | Returned r3 \<Rightarrow>
                    Returned
                      (if verbose r3 \<or> total_errors r3 > 0
                       then print (''Total errors in '' @ path r3 @ '': ''
                                   @ str_int (total_errors r3)) r3
                       else r3)))"
      unfolding check_def Let_def r0_def[symmetric] p0 r1_def[symmetric]
      by (simp add: Parsed p0)
    show ?thesis
    proof (cases "run_fzp_checks env d cts r1")
      case (Raised e r2)
      then show ?thesis unfolding lhs rhs run_fzp_checks_prepend by simp
    next
      case fz: (Returned r2)
      show ?thesis
      proof (cases "scts = []")
        case True
        then show ?thesis unfolding lhs rhs run_fzp_checks_prepend fz
          by (simp add: prepend_simps)
      next
        case False
        show ?thesis
        proof (cases "run_svg_checkers env d scts r2")
          case (Returned r3)
          then show ?thesis unfolding lhs rhs run_fzp_checks_prepend fz
            using False by (simp add: run_svg_checkers_prepend prepend_simps)
        next
          case (Raised e r3)
          then show ?thesis unfolding lhs rhs run_fzp_checks_prepend fz
            using False by (simp add: run_svg_checkers_prepend prepend_simps)
        qed
      qed
    qed
  qed
qed

lemma check_forgets_count:
  "check env cts scts (r\<lparr>total_errors := k\<rparr>) = check env cts scts r"
  by (simp add: check_def emit_def)

lemma check_canonical:
  "check env cts scts r
     = map_outcome (prepend (trace r))
         (check env cts scts (fresh_runner (path r) (verbose r)))"
proof -
  define r0 where "r0 = (fresh_runner (path r) (verbose r))\<lparr>total_errors := total_errors r\<rparr>"
  have eq: "prepend (trace r) r0 = r"
    by (cases r) (simp add: r0_def prepend_def fresh_runner_def)
  have "check env cts scts (prepend (trace r) r0)
          = map_outcome (prepend (trace r)) (check env cts scts r0)"
    by (rule check_prepend)
  then show ?thesis
    unfolding eq unfolding r0_def check_forgets_count .
qed


lemma keeps_simps:
  "path (emit ev r) = path r" "verbose (emit ev r) = verbose r"
  "path (print s r) = path r" "verbose (print s r) = verbose r"
  "path (add_errors k r) = path r" "verbose (add_errors k r) = verbose r"
  by (simp_all add: emit_def print_def add_errors_def)

lemma run_fzp_checks_keeps:
  "path (state_of (run_fzp_checks env d cts r)) = path r
   \<and> verbose (state_of (run_fzp_checks env d cts r)) = verbose r"
proof (induction cts arbitrary: r)
  case Nil
  show ?case by simp
next
  case (Cons n cts)
  show ?case
  proof (cases "get_checker env r n")
    case (Inl e)
    then show ?thesis by simp
  next
    case (Inr inst)
    then show ?thesis by (simp add: Let_def Cons.IH keeps_simps)
  qed
qed

lemma run_svg_checks_keeps:
  "path (state_of (run_svg_checks env d ids p v cts r)) = path r
   \<and> verbose (state_of (run_svg_checks env d ids p v cts r)) = verbose r"
proof (induction cts arbitrary: r)
  case Nil
  show ?case by simp
next
  case (Cons n cts)
  show ?case
  proof (cases "get_svg_checker env n")
    case (Inl e)
    then show ?thesis by simp
  next
    case (Inr c)
    then show ?thesis by (simp add: Let_def Cons.IH keeps_simps)
  qed
qed

lemma run_svg_checks_keepsD:
  "run_svg_checks env d ids p v cts r = Returned r' \<Longrightarrow>
     path r' = path r \<and> verbose r' = verbose r"
  "run_svg_checks env d ids p v cts r = Raised e r' \<Longrightarrow>
     path r' = path r \<and> verbose r' = verbose r"
  using run_svg_checks_keeps[of env d ids p v cts r] by simp_all

lemma svg_view_keeps:
  "path (fst (state_of (svg_view env scts view (r, sd)))) = path r
   \<and> verbose (fst (state_of (svg_view env scts view (r, sd)))) = verbose r"
  unfolding svg_view_def Let_def
  by (auto simp: keeps_simps split: list.splits option.splits parsed.splits outcome.splits
           dest!: run_svg_checks_keepsD)

lemma run_views_keeps:
  "path (fst (state_of (run_views env scts views (r, sd)))) = path r
   \<and> verbose (fst (state_of (run_views env scts views (r, sd)))) = verbose r"
proof (induction views arbitrary: r sd)
  case Nil
  show ?case by simp
next
  case (Cons view views)
  show ?case
  proof (cases "svg_view env scts view (r, sd)")
    case (Returned fr)
    with svg_view_keeps[of env scts view r sd] Cons.IH[of "fst fr" "snd fr"]
    show ?thesis by simp
  next
    case (Raised e fr)
    with svg_view_keeps[of env scts view r sd] show ?thesis by simp
  qed
qed

lemma run_svg_checkers_keeps:
  "path (state_of (run_svg_checkers env d scts r)) = path r
   \<and> verbose (state_of (run_svg_checkers env d scts r)) = verbose r"
proof (cases "xpath_all ''views'' d")
  case Nil
  then show ?thesis by (simp add: run_svg_checkers_def)
next
  case (Cons views rest)
  with run_views_keeps[of env scts "xpath_star views" r None] show ?thesis
    by (cases "run_views env scts (xpath_star views) (r, None)")
       (simp_all add: run_svg_checkers_def)
qed

lemma check_keeps:
  "path (state_of (check env cts scts r)) = path r
   \<and> verbose (state_of (check env cts scts r)) = verbose r"
proof -
  define r0 where "r0 = emit (Parse (path r)) (r\<lparr>total_errors := 0\<rparr>)"
  have p0: "path r0 = path r" "verbose r0 = verbose r"
    by (simp_all add: r0_def emit_def)
  show ?thesis
  proof (cases "etree_parse env (path r)")
    case (XMLSyntaxError msg)
    then show ?thesis by (simp add: check_def Let_def keeps_simps)
  next
    case (ReadError msg)
    then show ?thesis by (simp add: check_def Let_def keeps_simps)
  next
    case (Parsed d)
    define r1 where "r1 = (if verbose r then print (''Scanning file: '' @ path r) r0 else r0)"
    have p1: "path r1 = path r" "verbose r1 = verbose r"
      by (simp_all add: r1_def p0 keeps_simps)
    have eq: "check env cts scts r
      = (case run_fzp_checks env d cts r1 of
             Raised e r2 \<Rightarrow> Raised e r2
           | Returned r2 \<Rightarrow>
               (case (if scts \<noteq> []
                      then run_svg_checkers env d scts r2
                      else Returned r2) of
                  Raised e r3 \<Rightarrow> Raised e r3
                | Returned r3 \<Rightarrow>
                    Returned
                      (if verbose r3 \<or> total_errors r3 > 0
                       then print (''Total errors in '' @ path r3 @ '': ''
                                   @ str_int (total_errors r3)) r3
                       else r3)))"
      unfolding check_def Let_def r0_def[symmetric] p0 r1_def[symmetric]
      by (simp add: Parsed p0)
    show ?thesis
    proof (cases "run_fzp_checks env d cts r1")
      case (Raised e r2)
      with run_fzp_checks_keeps[of env d cts r1] show ?thesis
        unfolding eq by (simp add: p1)
    next
      case fz: (Returned r2)
      with run_fzp_checks_keeps[of env d cts r1] have p2: "path r2 = path r" "verbose r2 = verbose r"
        by (simp_all add: p1)
      show ?thesis
      proof (cases "scts = []")
        case True
        then show ?thesis unfolding eq fz by (simp add: p2 keeps_simps)
      next
        case False
        with run_svg_checkers_keeps[of env d scts r2] show ?thesis
          unfolding eq fz
          by (cases "run_svg_checkers env d scts r2") (simp_all add: p2 keeps_simps)
      qed
    qed
  qed
qed


lemma state_of_map_outcome: "state_of (map_outcome f x) = f (state_of x)"
  by (cases x) simp_all

lemma ending_map_outcome: "ending (map_outcome f x) = ending x"
  by (cases x) simp_all

lemma emitted_prepend: "emitted r (prepend (trace r) s) = trace s"
  by (simp add: emitted_def prepend_def)

lemma check_count_fresh:
  "total_errors (state_of (check env cts scts r))
     = total_errors (state_of (check env cts scts (fresh_runner (path r) (verbose r))))"
  unfolding check_canonical[of env cts scts r] state_of_map_outcome
  by (simp add: prepend_def)

lemma check_files_sum:
  "check_files env cts scts fzp_files (errors, r) = Returned (errors', r') \<Longrightarrow>
     errors' = errors
       + sum_list (map (\<lambda>f. total_errors
                             (state_of (check env cts scts (fresh_runner f (verbose r)))))
                    fzp_files)"
proof (induction fzp_files arbitrary: errors r)
  case Nil
  then show ?case by simp
next
  case (Cons f fs)
  show ?case
  proof (cases "check env cts scts (r\<lparr>path := f\<rparr>)")
    case (Raised e r1)
    with Cons.prems show ?thesis by simp
  next
    case (Returned r1)
    from check_keeps[of env cts scts "r\<lparr>path := f\<rparr>"] Returned
    have v: "verbose r1 = verbose r" by simp
    from check_count_fresh[of env cts scts "r\<lparr>path := f\<rparr>"] Returned
    have c: "total_errors r1
               = total_errors (state_of (check env cts scts (fresh_runner f (verbose r))))"
      by simp
    from Cons.prems Returned
    have "check_files env cts scts fs (errors + total_errors r1, r1) = Returned (errors', r')"
      by simp
    from Cons.IH[OF this] show ?thesis unfolding v c by simp
  qed
qed

subsection \<open>A run of the example\<close>

lemma untitled_first_run:
  "check example_env [''missing_tags''] [''ids''] (example_runner ''core/untitled.fzp'')
   = Returned
       \<lparr>path = ''core/untitled.fzp'', verbose = False, total_errors = 1,
          trace =
            [Parse ''core/untitled.fzp'',
             FzpCheck ''missing_tags'' [''Missing required tag: title''],
             GetSvgPath ''core/untitled.fzp'' ''pcb/part.svg'' ''pcbView'',
             IsFile ''svg/core/pcb/part.svg'', Parse ''svg/core/pcb/part.svg'',
             SvgCheck ''ids'' ''svg/core/pcb/part.svg'' [],
             Print ''Total errors in core/untitled.fzp: 1'']\<rparr>"
  by (simp add: check_def run_svg_checkers_def svg_view_def runner_ops example_defs
                lookup_defs xpath_defs clear_def str_int_def)

subsection \<open>A malformed FZP document\<close>

text \<open>
  C3. When the FZP file is malformed XML, check returns at once, whatever FZP and SVG
  checks were requested: total_errors is 1 (whatever it was before), and all the call did
  was to try the parse and print the line "Invalid XML: ..." with the parser's message.
  No rule ran and no view was resolved.
\<close>

theorem check_malformed_fzp:
  assumes "etree_parse env (path r) = XMLSyntaxError msg"
  shows "check env check_types svg_check_types r =
           Returned (r\<lparr>total_errors := 1,
                       trace := trace r @ [Parse (path r), Print (''Invalid XML: '' @ msg)]\<rparr>)"
  using assms by (simp add: check_def runner_ops)

theorem check_malformed_fzp_witness:
  "check example_env [''missing_tags'', ''no_such_check''] [''ids'']
     \<lparr>path = ''core/bad.fzp'', verbose = True, total_errors = 7, trace = []\<rparr>
   = Returned
       \<lparr>path = ''core/bad.fzp'', verbose = True, total_errors = 1,
          trace = [Parse ''core/bad.fzp'',
                   Print ''Invalid XML: Opening and ending tag mismatch'']\<rparr>"
  using check_malformed_fzp
          [of example_env
              "\<lparr>path = ''core/bad.fzp'', verbose = True, total_errors = 7, trace = []\<rparr>"
              "''Opening and ending tag mismatch''"
              "[''missing_tags'', ''no_such_check'']" "[''ids'']"]
  by (simp add: example_env_def example_parse_def)

subsection \<open>The views of an FZP document\<close>

text \<open>
  C5. A view whose tag is "defaultUnits" is passed over: the pass over it returns the
  runner and the local state as they were, so it prints no warning, counts no error and
  makes no call to resolve, test, parse or check an SVG asset; the loop goes on with the
  views that follow.
\<close>

theorem default_units_skipped:
  assumes "tag view = ''defaultUnits''"
  shows "svg_view env svg_check_types view (r, svg_doc) = Returned (r, svg_doc)
         \<and> run_views env svg_check_types (view # rest) (r, svg_doc)
             = run_views env svg_check_types rest (r, svg_doc)"
  using assms by (simp add: svg_view_def)

theorem default_units_skipped_witness:
  "svg_view example_env [''ids''] (Element ''defaultUnits'' [] [])
     (example_runner ''core/part.fzp'', None)
   = Returned (example_runner ''core/part.fzp'', None)
   \<and> run_views example_env [''ids''] [Element ''defaultUnits'' [] [], pcb_view]
       (example_runner ''core/part.fzp'', None)
     = run_views example_env [''ids''] [pcb_view] (example_runner ''core/part.fzp'', None)"
  using default_units_skipped
          [of "Element ''defaultUnits'' [] []" example_env "[''ids'']"
              "example_runner ''core/part.fzp''" None "[pcb_view]"]
  by simp

text \<open>
  C1, at a failing input. The document core/part.fzp has the views breadboardView (no
  layers child), defaultUnits and pcbView (a sound asset). A run with the SVG check
  "ids" prints the warning for breadboardView and goes on with the views that follow,
  but counts nothing for it: the run ends with total_errors 0, not 1. The branch for a
  missing asset file, a few lines above in the same loop, prints its warning and adds 1.
\<close>

theorem missing_layers_not_counted:
  "xpath_child ''layers'' (Element ''breadboardView'' [] []) = []
   \<and> check example_env [] [''ids''] (example_runner ''core/part.fzp'')
     = Returned
         \<lparr>path = ''core/part.fzp'', verbose = False, total_errors = 0,
            trace =
              [Parse ''core/part.fzp'',
               Print (''Warning: No '' @ sq ''layers'' @ '' element found in view ''
                      @ sq ''breadboardView'' @ '' of file '' @ sq ''core/part.fzp''),
               GetSvgPath ''core/part.fzp'' ''pcb/part.svg'' ''pcbView'',
               IsFile ''svg/core/pcb/part.svg'', Parse ''svg/core/pcb/part.svg'',
               SvgCheck ''ids'' ''svg/core/pcb/part.svg'' []]\<rparr>"
  by (simp add: check_def run_svg_checkers_def svg_view_def runner_ops example_defs
                lookup_defs xpath_defs clear_def)

text \<open>
  C2, at a failing input. In core/broken_svg.fzp the first view's asset exists and is
  malformed, and a second view follows. The runner prints "Invalid XML in SVG: ..." and
  counts one error; then the finally clause reads \<^verbatim>\<open>svg_doc\<close>, which no parse of this call
  has bound yet, and the run ends with UnboundLocalError: the second view is never
  reached and no total is reported.
\<close>

theorem malformed_first_svg_aborts_run:
  "check example_env [] [''ids''] (example_runner ''core/broken_svg.fzp'')
   = Raised UnboundLocalError
       \<lparr>path = ''core/broken_svg.fzp'', verbose = False, total_errors = 1,
          trace =
            [Parse ''core/broken_svg.fzp'',
             GetSvgPath ''core/broken_svg.fzp'' ''breadboard/broken.svg'' ''breadboardView'',
             IsFile ''svg/core/breadboard/broken.svg'',
             Parse ''svg/core/breadboard/broken.svg'',
             Print ''Invalid XML in SVG: Premature end of data'']\<rparr>"
  by (simp add: check_def run_svg_checkers_def svg_view_def runner_ops example_defs
                lookup_defs xpath_defs)

subsection \<open>A well-formed FZP document\<close>

text \<open>
  C7. When the FZP file parses, every selected FZP rule is registered and returns 0 on
  the document, and no SVG check is requested, check returns with total_errors 0, and no
  line the runner printed during the call begins with "Invalid XML" (its lines are the
  progress lines of verbose mode; what the rules print is theirs).
\<close>

theorem check_clean_document:
  assumes parse: "etree_parse env (path r) = Parsed fzp_doc"
      and zero: "\<forall>n\<in>set check_types. n \<in> fzp_names env \<and> fzp_errors env r fzp_doc n = 0"
  shows "\<exists>r'. check env check_types [] r = Returned r' \<and> total_errors r' = 0
              \<and> (\<forall>s. Print s \<in> set (emitted r r') \<longrightarrow> \<not> prefix ''Invalid XML'' s)"
proof -
  define sc where "sc = (if verbose r then [Print (''Scanning file: '' @ path r)] else [])"
  define r1 where "r1 = r\<lparr>total_errors := 0, trace := trace r @ Parse (path r) # sc\<rparr>"
  have p1: "path r1 = path r" by (simp add: r1_def)
  from zero have reg: "set check_types \<subseteq> fzp_names env" by auto
  from run_fzp_checks_registered[OF reg, of fzp_doc r1] obtain evs where
    evs: "run_fzp_checks env fzp_doc check_types r1
            = Returned (r1\<lparr>total_errors := total_errors r1
                               + sum_list (map (fzp_errors env r1 fzp_doc) check_types),
                         trace := trace r1 @ evs\<rparr>)"
    and pr: "\<forall>s. Print s \<in> set evs \<longrightarrow> prefix ''Running check: '' s"
    by (elim exE conjE)
  have "\<forall>n\<in>set check_types. fzp_errors env r1 fzp_doc n = 0"
    using zero fzp_errors_path_only[OF p1, of env fzp_doc] by simp
  then have sum0: "sum_list (map (fzp_errors env r1 fzp_doc) check_types) = 0"
    by (rule sum_list_zero)
  define tot where "tot = (if verbose r then [Print (''Total errors in '' @ path r @ '': '' @ str_int 0)] else [])"
  define r' where "r' = r\<lparr>total_errors := 0, trace := trace r @ Parse (path r) # sc @ evs @ tot\<rparr>"
  have "check env check_types [] r = Returned r'"
    using parse evs[unfolded sum0]
    by (cases "verbose r")
       (simp_all add: check_def Let_def emit_def print_def r1_def sc_def tot_def r'_def)
  moreover have "total_errors r' = 0" by (simp add: r'_def)
  moreover have "emitted r r' = Parse (path r) # sc @ evs @ tot"
    by (simp add: emitted_def r'_def)
  then have "\<forall>s. Print s \<in> set (emitted r r') \<longrightarrow> \<not> prefix ''Invalid XML'' s"
    using pr not_invalid_xml by (auto simp: sc_def tot_def split: if_splits)
  ultimately show ?thesis by (intro exI[of _ r'] conjI)
qed

theorem check_clean_document_witness:
  "\<exists>r'. check example_env [''missing_tags'', ''connector_visibility''] []
           \<lparr>path = ''core/part.fzp'', verbose = True, total_errors = 3, trace = []\<rparr>
         = Returned r'
       \<and> total_errors r' = 0
       \<and> (\<forall>s. Print s \<in> set (emitted
                 \<lparr>path = ''core/part.fzp'', verbose = True, total_errors = 3, trace = []\<rparr> r')
              \<longrightarrow> \<not> prefix ''Invalid XML'' s)"
  using check_clean_document
          [of example_env
              "\<lparr>path = ''core/part.fzp'', verbose = True, total_errors = 3, trace = []\<rparr>"
              part_doc "[''missing_tags'', ''connector_visibility'']"]
  by (simp add: fzp_names_def fzp_errors_def lookup_defs example_defs xpath_defs)

text \<open>
  C9, as the code has it. When the FZP file parses, the document has no element with
  the tag "views", SVG checks are requested and every requested FZP check name is
  registered (so that the loop over the FZP rules completes), check ends with IndexError,
  raised by \<^verbatim>\<open>fzp_doc.xpath("//views")[0]\<close>. Nothing is counted for the missing element:
  total_errors holds the sum of what the FZP rules returned; and the runner printed no
  diagnostic, only the progress lines of verbose mode (no total is reported).
\<close>

theorem check_without_views:
  assumes parse: "etree_parse env (path r) = Parsed fzp_doc"
      and noviews: "xpath_all ''views'' fzp_doc = []"
      and svg: "svg_check_types \<noteq> []"
      and reg: "set check_types \<subseteq> fzp_names env"
  shows "\<exists>r'. check env check_types svg_check_types r = Raised IndexError r'
              \<and> total_errors r' = sum_list (map (fzp_errors env r fzp_doc) check_types)
              \<and> (\<forall>s. Print s \<in> set (emitted r r') \<longrightarrow>
                     prefix ''Scanning file: '' s \<or> prefix ''Running check: '' s)"
proof -
  define sc where "sc = (if verbose r then [Print (''Scanning file: '' @ path r)] else [])"
  define r1 where "r1 = r\<lparr>total_errors := 0, trace := trace r @ Parse (path r) # sc\<rparr>"
  have p1: "path r1 = path r" by (simp add: r1_def)
  from run_fzp_checks_registered[OF reg, of fzp_doc r1] obtain evs where
    evs: "run_fzp_checks env fzp_doc check_types r1
            = Returned (r1\<lparr>total_errors := total_errors r1
                               + sum_list (map (fzp_errors env r1 fzp_doc) check_types),
                         trace := trace r1 @ evs\<rparr>)"
    and pr: "\<forall>s. Print s \<in> set evs \<longrightarrow> prefix ''Running check: '' s"
    by (elim exE conjE)
  have same: "map (fzp_errors env r1 fzp_doc) check_types = map (fzp_errors env r fzp_doc) check_types"
    by (rule map_cong[OF refl]) (rule fzp_errors_path_only[OF p1])
  define r' where "r' = r\<lparr>total_errors := sum_list (map (fzp_errors env r fzp_doc) check_types),
                           trace := trace r @ Parse (path r) # sc @ evs\<rparr>"
  have "check env check_types svg_check_types r = Raised IndexError r'"
    using parse evs[unfolded same] noviews svg
    by (cases "verbose r")
       (simp_all add: check_def run_svg_checkers_def Let_def emit_def print_def r1_def sc_def
                      r'_def)
  moreover have "total_errors r' = sum_list (map (fzp_errors env r fzp_doc) check_types)"
    by (simp add: r'_def)
  moreover have "emitted r r' = Parse (path r) # sc @ evs"
    by (simp add: emitted_def r'_def)
  then have "\<forall>s. Print s \<in> set (emitted r r') \<longrightarrow>
                     prefix ''Scanning file: '' s \<or> prefix ''Running check: '' s"
    using pr by (auto simp: sc_def split: if_splits)
  ultimately show ?thesis by (intro exI[of _ r'] conjI)
qed

theorem check_without_views_witness:
  "\<exists>r'. check example_env [''missing_tags''] [''ids''] (example_runner ''core/no_views.fzp'')
         = Raised IndexError r'
       \<and> total_errors r' = 0
       \<and> (\<forall>s. Print s \<in> set (emitted (example_runner ''core/no_views.fzp'') r') \<longrightarrow>
              prefix ''Scanning file: '' s \<or> prefix ''Running check: '' s)"
  using check_without_views
          [of example_env "example_runner ''core/no_views.fzp''" no_views_doc "[''ids'']"
              "[''missing_tags'']"]
  by (simp add: fzp_names_def fzp_errors_def lookup_defs example_defs xpath_defs)

text \<open>
  C9, as the claim states it, fails when a requested FZP check name is not registered:
  on the document core/no_views.fzp, which has no views element, a run with the FZP
  check "no_such_check" and the SVG check "ids" ends with ValueError, raised by the
  lookup of the FZP rule, before the views are looked for.
\<close>

theorem check_without_views_unknown_rule:
  "xpath_all ''views'' no_views_doc = []
   \<and> etree_parse example_env ''core/no_views.fzp'' = Parsed no_views_doc
   \<and> check example_env [''no_such_check''] [''ids''] (example_runner ''core/no_views.fzp'')
     = Raised (ValueError ''Invalid check type: no_such_check'')
         \<lparr>path = ''core/no_views.fzp'', verbose = False, total_errors = 0,
            trace = [Parse ''core/no_views.fzp'']\<rparr>"
  by (simp add: check_def runner_ops example_defs lookup_defs xpath_defs)

subsection \<open>Unknown check names\<close>

text \<open>
  C4, as the code has it. A check name is looked up when its turn comes in a rule loop,
  and the lookup of a name that no registered class has raises ValueError. So check
  raises ValueError for an unregistered name whenever the lookup of that name is
  reached, and nothing is added to total_errors for it:
  \<^item> both lookups raise on an unregistered name;
  \<^item> when the FZP file parses and the FZP names before it are registered, check raises
    at an unregistered FZP name, with total_errors holding what the rules before it
    returned;
  \<^item> when the FZP file parses, every FZP name is registered, the document has a views
    element, and the first view whose asset exists on disk has an asset that parses,
    check raises at an unregistered SVG name whose predecessors are registered, with
    total_errors holding what the FZP rules returned, one for each missing asset
    before that view, and what the SVG rules before the name returned;
  \<^item> when the FZP file parses, every FZP name is registered, the document has a views
    element and no view has an asset on disk, no SVG name is looked up: check returns,
    whatever SVG names were requested, with total_errors holding what the FZP rules
    returned and one for each missing asset.
\<close>

theorem unknown_check_name_raises:
  "(n \<notin> fzp_names env \<longrightarrow>
      get_checker env r n = Inl (ValueError (''Invalid check type: '' @ n)))
   \<and> (m \<notin> svg_names env \<longrightarrow>
      get_svg_checker env m = Inl (ValueError (''Invalid SVG check type: '' @ m)))
   \<and> (etree_parse env (path r) = Parsed fzp_doc \<and> set pre \<subseteq> fzp_names env
        \<and> n \<notin> fzp_names env \<longrightarrow>
      (\<exists>r'. check env (pre @ n # post) svg_check_types r
               = Raised (ValueError (''Invalid check type: '' @ n)) r'
            \<and> total_errors r' = sum_list (map (fzp_errors env r fzp_doc) pre)))
   \<and> (etree_parse env (path r) = Parsed fzp_doc \<and> set check_types \<subseteq> fzp_names env
        \<and> xpath_all ''views'' fzp_doc = views # more_views
        \<and> xpath_star views = before @ view # rest
        \<and> (\<forall>v\<in>set before. \<forall>sp. view_asset env (path r) v = Some sp \<longrightarrow> \<not> isfile env sp)
        \<and> view_asset env (path r) view = Some svg_path
        \<and> isfile env svg_path \<and> etree_parse env svg_path = Parsed svg_doc
        \<and> set svg_pre \<subseteq> svg_names env \<and> m \<notin> svg_names env \<longrightarrow>
      (\<exists>r'. check env check_types (svg_pre @ m # svg_post) r
               = Raised (ValueError (''Invalid SVG check type: '' @ m)) r'
            \<and> total_errors r'
                = sum_list (map (fzp_errors env r fzp_doc) check_types)
                  + int (length (filter (\<lambda>v. view_asset env (path r) v \<noteq> None) before))
                  + sum_list (map (svg_errors env svg_doc (view_layer_ids view)) svg_pre)))
   \<and> (etree_parse env (path r) = Parsed fzp_doc \<and> set check_types \<subseteq> fzp_names env
        \<and> xpath_all ''views'' fzp_doc = views # more_views
        \<and> (\<forall>v\<in>set (xpath_star views).
              \<forall>sp. view_asset env (path r) v = Some sp \<longrightarrow> \<not> isfile env sp)
        \<and> svg_check_types \<noteq> [] \<longrightarrow>
      (\<exists>r'. check env check_types svg_check_types r = Returned r'
            \<and> total_errors r'
                = sum_list (map (fzp_errors env r fzp_doc) check_types)
                  + int (length (filter (\<lambda>v. view_asset env (path r) v \<noteq> None)
                                   (xpath_star views)))))"
proof (intro conjI impI)
  show "n \<notin> fzp_names env \<Longrightarrow>
      get_checker env r n = Inl (ValueError (''Invalid check type: '' @ n))"
    by (rule get_checker_unregistered)
  show "m \<notin> svg_names env \<Longrightarrow>
      get_svg_checker env m = Inl (ValueError (''Invalid SVG check type: '' @ m))"
    by (rule get_svg_checker_unregistered)
  show "etree_parse env (path r) = Parsed fzp_doc \<and> set pre \<subseteq> fzp_names env
        \<and> n \<notin> fzp_names env \<Longrightarrow>
      \<exists>r'. check env (pre @ n # post) svg_check_types r
               = Raised (ValueError (''Invalid check type: '' @ n)) r'
            \<and> total_errors r' = sum_list (map (fzp_errors env r fzp_doc) pre)"
    using check_unknown_fzp_name by blast
  show "etree_parse env (path r) = Parsed fzp_doc \<and> set check_types \<subseteq> fzp_names env
        \<and> xpath_all ''views'' fzp_doc = views # more_views
        \<and> xpath_star views = before @ view # rest
        \<and> (\<forall>v\<in>set before. \<forall>sp. view_asset env (path r) v = Some sp \<longrightarrow> \<not> isfile env sp)
        \<and> view_asset env (path r) view = Some svg_path
        \<and> isfile env svg_path \<and> etree_parse env svg_path = Parsed svg_doc
        \<and> set svg_pre \<subseteq> svg_names env \<and> m \<notin> svg_names env \<Longrightarrow>
      \<exists>r'. check env check_types (svg_pre @ m # svg_post) r
               = Raised (ValueError (''Invalid SVG check type: '' @ m)) r'
            \<and> total_errors r'
                = sum_list (map (fzp_errors env r fzp_doc) check_types)
                  + int (length (filter (\<lambda>v. view_asset env (path r) v \<noteq> None) before))
                  + sum_list (map (svg_errors env svg_doc (view_layer_ids view)) svg_pre)"
    by (elim conjE) (rule check_unknown_svg_name)
  show "etree_parse env (path r) = Parsed fzp_doc \<and> set check_types \<subseteq> fzp_names env
        \<and> xpath_all ''views'' fzp_doc = views # more_views
        \<and> (\<forall>v\<in>set (xpath_star views).
              \<forall>sp. view_asset env (path r) v = Some sp \<longrightarrow> \<not> isfile env sp)
        \<and> svg_check_types \<noteq> [] \<Longrightarrow>
      \<exists>r'. check env check_types svg_check_types r = Returned r'
            \<and> total_errors r'
                = sum_list (map (fzp_errors env r fzp_doc) check_types)
                  + int (length (filter (\<lambda>v. view_asset env (path r) v \<noteq> None)
                                   (xpath_star views)))"
    by (elim conjE) (rule check_no_asset_on_disk)
qed

theorem unknown_check_name_raises_witness:
  "get_checker example_env (example_runner ''core/untitled.fzp'') ''no_such_check''
     = Inl (ValueError ''Invalid check type: no_such_check'')
   \<and> get_svg_checker example_env ''no_such_svg_check''
     = Inl (ValueError ''Invalid SVG check type: no_such_svg_check'')
   \<and> (\<exists>r'. check example_env [''missing_tags'', ''no_such_check'', ''connector_terminal'']
               [''ids''] (example_runner ''core/untitled.fzp'')
             = Raised (ValueError ''Invalid check type: no_such_check'') r'
           \<and> total_errors r' = 1)
   \<and> (\<exists>r'. check example_env [''missing_tags''] [''ids'', ''no_such_svg_check'', ''viewbox'']
               (example_runner ''core/part.fzp'')
             = Raised (ValueError ''Invalid SVG check type: no_such_svg_check'') r'
           \<and> total_errors r' = 0)
   \<and> (\<exists>r'. check example_env [''missing_tags''] [''no_such_svg_check'']
               (example_runner ''core/empty_views.fzp'')
             = Returned r'
           \<and> total_errors r' = 1)"
  using unknown_check_name_raises
          [where n = "''no_such_check''" and m = "''no_such_svg_check''" and env = example_env
             and r = "example_runner ''core/untitled.fzp''" and fzp_doc = untitled_doc
             and pre = "[''missing_tags'']" and post = "[''connector_terminal'']"
             and svg_check_types = "[''ids'']"]
        unknown_check_name_raises
          [where m = "''no_such_svg_check''" and env = example_env
             and r = "example_runner ''core/part.fzp''" and fzp_doc = part_doc
             and check_types = "[''missing_tags'']"
             and views = "Element ''views'' []
                 [Element ''breadboardView'' [] [], Element ''defaultUnits'' [] [], pcb_view]"
             and more_views = "[]"
             and before = "[Element ''breadboardView'' [] [], Element ''defaultUnits'' [] []]"
             and view = pcb_view and rest = "[]"
             and svg_path = "''svg/core/pcb/part.svg''" and svg_doc = "Element ''svg'' [] []"
             and svg_pre = "[''ids'']" and svg_post = "[''viewbox'']"]
        unknown_check_name_raises
          [where env = example_env
             and r = "example_runner ''core/empty_views.fzp''" and fzp_doc = empty_views_doc
             and check_types = "[''missing_tags'']"
             and views = "Element ''views'' [] []" and more_views = "[]"
             and svg_check_types = "[''no_such_svg_check'']"]
  by (simp add: fzp_names_def svg_names_def fzp_errors_def svg_errors_def lookup_defs
                example_defs xpath_defs view_asset_def view_layer_ids_def)

text \<open>
  C4, as the claim states it, fails for a name whose lookup is never reached: on the
  document core/empty_views.fzp, whose views element has no children, a run that
  requests the unregistered SVG check "no_such_svg_check" returns normally with
  total_errors 0. No error is raised.
\<close>

theorem unknown_svg_check_name_ignored:
  "''no_such_svg_check'' \<notin> svg_names example_env
   \<and> check example_env [] [''no_such_svg_check''] (example_runner ''core/empty_views.fzp'')
     = Returned
         \<lparr>path = ''core/empty_views.fzp'', verbose = False, total_errors = 0,
            trace = [Parse ''core/empty_views.fzp'']\<rparr>"
  by (simp add: check_def run_svg_checkers_def runner_ops svg_names_def example_defs
                lookup_defs xpath_defs)

subsection \<open>Batch discovery\<close>

text \<open>
  C6, as the code has it. The search opens every file under the root whose name ends in
  ".fzp", those in a directory whose path has a segment "obsolete" left out unless the
  SVG's own path has such a segment. When every one of these files can be read as
  text, the search returns a list whose elements are exactly those of them whose content
  contains the base filename of the SVG as a substring. When one of them cannot be read,
  the search returns no list: it ends with the exception of such a file.
\<close>

theorem search_finds_referencing_files:
  "((\<forall>p\<in>opened_fzp_files tree svg_file fzp_dir. \<exists>content. rd p = Inr content) \<longrightarrow>
      (\<exists>fzp_files. search_fzp_files_with_svg rd tree svg_file fzp_dir = Inr fzp_files
                  \<and> set fzp_files = referencing_fzp_files rd tree svg_file fzp_dir))
   \<and> ((\<exists>p\<in>opened_fzp_files tree svg_file fzp_dir. \<exists>e. rd p = Inl e) \<longrightarrow>
      (\<exists>p\<in>opened_fzp_files tree svg_file fzp_dir. \<exists>e.
          rd p = Inl e \<and> search_fzp_files_with_svg rd tree svg_file fzp_dir = Inl e))"
proof (intro conjI impI)
  assume "\<forall>p\<in>opened_fzp_files tree svg_file fzp_dir. \<exists>content. rd p = Inr content"
  then have "\<forall>p\<in>set (walk_opened (has_segment ''obsolete'' svg_file) (os_walk fzp_dir tree)).
               \<exists>content. rd p = Inr content"
    unfolding walk_opened_files .
  from scan_paths_readable[OF this, of "basename svg_file" "[]"]
  have found: "search_fzp_files_with_svg rd tree svg_file fzp_dir
      = Inr (filter (\<lambda>p. \<exists>content. rd p = Inr content \<and> str_in (basename svg_file) content)
              (walk_opened (has_segment ''obsolete'' svg_file) (os_walk fzp_dir tree)))"
    unfolding search_paths by simp
  have "set (filter (\<lambda>p. \<exists>content. rd p = Inr content \<and> str_in (basename svg_file) content)
              (walk_opened (has_segment ''obsolete'' svg_file) (os_walk fzp_dir tree)))
          = referencing_fzp_files rd tree svg_file fzp_dir"
    unfolding referencing_fzp_files_def set_filter walk_opened_files str_in_sublist ..
  with found show "\<exists>fzp_files. search_fzp_files_with_svg rd tree svg_file fzp_dir = Inr fzp_files
                  \<and> set fzp_files = referencing_fzp_files rd tree svg_file fzp_dir"
    by blast
next
  assume "\<exists>p\<in>opened_fzp_files tree svg_file fzp_dir. \<exists>e. rd p = Inl e"
  then have "\<exists>p\<in>set (walk_opened (has_segment ''obsolete'' svg_file) (os_walk fzp_dir tree)).
               \<exists>e. rd p = Inl e"
    unfolding walk_opened_files .
  from scan_paths_unreadable[OF this, of "basename svg_file" "[]"]
  show "\<exists>p\<in>opened_fzp_files tree svg_file fzp_dir. \<exists>e.
          rd p = Inl e \<and> search_fzp_files_with_svg rd tree svg_file fzp_dir = Inl e"
    unfolding search_paths walk_opened_files .
qed

lemmas batch_defs =
  search_fzp_files_with_svg_def example_tree_def example_read_def
  example_read_undecodable_def basename_def os_path_join_def endswith_def

theorem search_finds_referencing_files_witness:
  "search_fzp_files_with_svg example_read example_tree ''svg/core/pcb/part.svg'' ''core''
     = Inr [''core/untitled.fzp'', ''core/part.fzp'']
   \<and> referencing_fzp_files example_read example_tree ''svg/core/pcb/part.svg'' ''core''
     = {''core/untitled.fzp'', ''core/part.fzp''}
   \<and> (\<exists>p\<in>opened_fzp_files example_tree ''svg/core/pcb/part.svg'' ''core''.
        example_read_undecodable p = Inl (UnicodeDecodeError ''invalid start byte'')
        \<and> search_fzp_files_with_svg example_read_undecodable example_tree
             ''svg/core/pcb/part.svg'' ''core''
           = Inl (UnicodeDecodeError ''invalid start byte''))"
proof -
  have readable:
    "\<forall>p\<in>opened_fzp_files example_tree ''svg/core/pcb/part.svg'' ''core''.
       \<exists>content. example_read p = Inr content"
    by (simp add: example_read_def)
  have run: "search_fzp_files_with_svg example_read example_tree ''svg/core/pcb/part.svg'' ''core''
     = Inr [''core/untitled.fzp'', ''core/part.fzp'']"
    by (simp add: batch_defs)
  from search_finds_referencing_files
         [of example_tree "''svg/core/pcb/part.svg''" "''core''" example_read]
       readable
  obtain fzp_files where
    "search_fzp_files_with_svg example_read example_tree ''svg/core/pcb/part.svg'' ''core''
       = Inr fzp_files"
    "set fzp_files
       = referencing_fzp_files example_read example_tree ''svg/core/pcb/part.svg'' ''core''"
    by blast
  with run have refs:
    "referencing_fzp_files example_read example_tree ''svg/core/pcb/part.svg'' ''core''
       = {''core/untitled.fzp'', ''core/part.fzp''}"
    by auto
  have "file_under example_tree ''core'' ''core'' ''other.fzp''"
    by (rule file_under.here) (simp add: example_tree_def)
  then have opened:
    "''core/other.fzp'' \<in> opened_fzp_files example_tree ''svg/core/pcb/part.svg'' ''core''"
    unfolding opened_fzp_files_def
    by (intro CollectI exI[of _ "''core''"] exI[of _ "''other.fzp''"])
       (simp add: os_path_join_def has_segment_def suffix_to_prefix)
  have bad: "example_read_undecodable ''core/other.fzp''
               = Inl (UnicodeDecodeError ''invalid start byte'')"
    by (simp add: example_read_undecodable_def)
  have only: "\<And>p e. example_read_undecodable p = Inl e \<Longrightarrow>
                e = UnicodeDecodeError ''invalid start byte''"
    by (auto simp: example_read_undecodable_def example_read_def split: if_splits)
  from search_finds_referencing_files
         [of example_tree "''svg/core/pcb/part.svg''" "''core''" example_read_undecodable]
       opened bad
  obtain p e where
    "p \<in> opened_fzp_files example_tree ''svg/core/pcb/part.svg'' ''core''"
    "example_read_undecodable p = Inl e"
    "search_fzp_files_with_svg example_read_undecodable example_tree
       ''svg/core/pcb/part.svg'' ''core'' = Inl e"
    by blast
  with only[of p e] have fails:
    "\<exists>p\<in>opened_fzp_files example_tree ''svg/core/pcb/part.svg'' ''core''.
        example_read_undecodable p = Inl (UnicodeDecodeError ''invalid start byte'')
        \<and> search_fzp_files_with_svg example_read_undecodable example_tree
             ''svg/core/pcb/part.svg'' ''core''
           = Inl (UnicodeDecodeError ''invalid start byte'')"
    by auto
  from run refs fails show ?thesis by (intro conjI)
qed

text \<open>
  C6, as the claim states it, fails on a root directory that holds a file the search
  cannot read: when core/other.fzp is not valid UTF-8, the search for part.svg under
  "core" reads core/untitled.fzp and core/part.fzp, then ends with UnicodeDecodeError
  and returns nothing, though other.fzp does not mention the SVG.
\<close>

theorem search_raises_on_undecodable_file:
  "search_fzp_files_with_svg example_read_undecodable example_tree
     ''svg/core/pcb/part.svg'' ''core''
   = Inl (UnicodeDecodeError ''invalid start byte'')"
  by (simp add: batch_defs)

subsection \<open>Repeated runs\<close>

text \<open>
  C8. Running check twice on the same runner, with the same path and the same lists of
  checks, in the same installation (the environment is a parameter of the model, so the
  files and the rules are the same in both runs): the second run ends with the same
  total_errors as the first, performs the same events and so prints the same text, and
  ends the same way (by returning, or with the same exception).
\<close>

theorem check_idempotent:
  "let r1 = state_of (check env check_types svg_check_types r);
       r2 = state_of (check env check_types svg_check_types r1)
   in total_errors r2 = total_errors r1
      \<and> emitted r1 r2 = emitted r r1
      \<and> output_lines (emitted r1 r2) = output_lines (emitted r r1)
      \<and> ending (check env check_types svg_check_types r1)
          = ending (check env check_types svg_check_types r)"
proof -
  define x0 where "x0 = check env check_types svg_check_types (fresh_runner (path r) (verbose r))"
  define r1 where "r1 = state_of (check env check_types svg_check_types r)"
  define r2 where "r2 = state_of (check env check_types svg_check_types r1)"
  have first: "check env check_types svg_check_types r = map_outcome (prepend (trace r)) x0"
    unfolding x0_def by (rule check_canonical)
  have same: "path r1 = path r" "verbose r1 = verbose r"
    unfolding r1_def using check_keeps[of env check_types svg_check_types r] by simp_all
  have second: "check env check_types svg_check_types r1 = map_outcome (prepend (trace r1)) x0"
    unfolding x0_def same[symmetric] by (rule check_canonical)
  have r1: "r1 = prepend (trace r) (state_of x0)"
    unfolding r1_def first by (rule state_of_map_outcome)
  have r2: "r2 = prepend (trace r1) (state_of x0)"
    unfolding r2_def second by (rule state_of_map_outcome)
  have e1: "emitted r r1 = trace (state_of x0)"
    using emitted_prepend[of r "state_of x0"] r1 by simp
  have e2: "emitted r1 r2 = trace (state_of x0)"
    using emitted_prepend[of r1 "state_of x0"] r2 by simp
  have t: "total_errors r2 = total_errors r1"
    using r1 r2 by (simp add: prepend_def)
  have en: "ending (check env check_types svg_check_types r1)
          = ending (check env check_types svg_check_types r)"
    unfolding first second ending_map_outcome ..
  show ?thesis
    unfolding Let_def r1_def[symmetric] r2_def[symmetric]
    using t e1 e2 en by simp
qed

theorem check_idempotent_witness:
  "let r1 = state_of (check example_env [''missing_tags''] [''ids'']
                        (example_runner ''core/untitled.fzp''));
       r2 = state_of (check example_env [''missing_tags''] [''ids''] r1)
   in total_errors r1 = 1 \<and> total_errors r2 = 1
      \<and> output_lines (emitted r1 r2)
          = [''Missing required tag: title'', ''Total errors in core/untitled.fzp: 1'']"
  using check_idempotent
          [of example_env "[''missing_tags'']" "[''ids'']" "example_runner ''core/untitled.fzp''"]
  unfolding untitled_first_run
  by (simp add: Let_def emitted_def output_lines_def example_runner_def)

text \<open>
  C10. check sets total_errors to 0 before anything else: its result does not depend on
  the count the runner held before, and the count it leaves is the count a fresh runner
  for the same path would leave. So in batch mode the sum that
  \<^verbatim>\<open>search_and_check_fzp_files\<close> returns is the sum, over the discovered files, of each
  file's own count: nothing is carried over from one file to the next.
\<close>

theorem check_counts_one_run_only:
  "check env check_types svg_check_types (r\<lparr>total_errors := k\<rparr>)
     = check env check_types svg_check_types r
   \<and> total_errors (state_of (check env check_types svg_check_types r))
     = total_errors (state_of (check env check_types svg_check_types
                                 (fresh_runner (path r) (verbose r))))
   \<and> (search_and_check_fzp_files env rd tree svg_file fzp_dir check_types svg_check_types r
         = Returned (errors, r') \<longrightarrow>
       (\<exists>fzp_files. search_fzp_files_with_svg rd tree svg_file fzp_dir = Inr fzp_files
          \<and> errors = sum_list (map (\<lambda>f. total_errors
                                 (state_of (check env check_types svg_check_types
                                              (fresh_runner f (verbose r)))))
                            fzp_files)))"
proof (intro conjI impI)
  show "check env check_types svg_check_types (r\<lparr>total_errors := k\<rparr>)
     = check env check_types svg_check_types r"
    by (rule check_forgets_count)
  show "total_errors (state_of (check env check_types svg_check_types r))
     = total_errors (state_of (check env check_types svg_check_types
                                 (fresh_runner (path r) (verbose r))))"
    by (rule check_count_fresh)
  assume batch:
    "search_and_check_fzp_files env rd tree svg_file fzp_dir check_types svg_check_types r
         = Returned (errors, r')"
  show "\<exists>fzp_files. search_fzp_files_with_svg rd tree svg_file fzp_dir = Inr fzp_files
          \<and> errors = sum_list (map (\<lambda>f. total_errors
                                 (state_of (check env check_types svg_check_types
                                              (fresh_runner f (verbose r)))))
                            fzp_files)"
  proof (cases "search_fzp_files_with_svg rd tree svg_file fzp_dir")
    case (Inl e)
    with batch show ?thesis by (simp add: search_and_check_fzp_files_def)
  next
    case (Inr fzp_files)
    with batch have
      "check_files env check_types svg_check_types fzp_files (0, r) = Returned (errors, r')"
      by (simp add: search_and_check_fzp_files_def)
    from check_files_sum[OF this] Inr show ?thesis by simp
  qed
qed

theorem check_counts_one_run_only_witness:
  "check example_env [''missing_tags''] [''ids'']
     ((example_runner ''core/untitled.fzp'')\<lparr>total_errors := 5\<rparr>)
     = check example_env [''missing_tags''] [''ids''] (example_runner ''core/untitled.fzp'')
   \<and> total_errors (state_of (check example_env [''missing_tags''] [''ids'']
                       ((example_runner ''core/untitled.fzp'')\<lparr>total_errors := 5\<rparr>))) = 1
   \<and> (\<exists>r'. search_and_check_fzp_files example_env example_read example_tree
               ''svg/core/pcb/part.svg'' ''core'' [''missing_tags''] [''ids'']
               ((example_runner [])\<lparr>total_errors := 5\<rparr>)
             = Returned (1, r'))"
  using check_counts_one_run_only
          [where env = example_env and check_types = "[''missing_tags'']"
             and svg_check_types = "[''ids'']" and k = 5
             and r = "example_runner ''core/untitled.fzp''"]
        check_counts_one_run_only
          [where env = example_env and check_types = "[''missing_tags'']"
             and svg_check_types = "[''ids'']"
             and r = "(example_runner [])\<lparr>total_errors := 5\<rparr>"
             and rd = example_read and tree = example_tree
             and svg_file = "''svg/core/pcb/part.svg''" and fzp_dir = "''core''"]
  by (simp add: search_and_check_fzp_files_def batch_defs check_def run_svg_checkers_def
                svg_view_def runner_ops example_defs lookup_defs xpath_defs clear_def)

end
